theory Spec2Isabelle
  imports Main
begin

section \<open>The AT-command client of the Waveshare LTE hat\<close>

text \<open>
  A shallow embedding of package \<open>wavesharecomm\<close> (\<open>wavesharecomm.go\<close>) and of the
  older \<open>WriteCommand\<close> of \<open>waveshare_comm.go\<close>. Bytes are \<open>char\<close>s (8 bits), Go
  strings and byte slices are \<open>char list\<close>s.
\<close>

subsection \<open>Errors\<close>

text \<open>
  \<open>EOF\<close>, \<open>ErrNoProgress\<close> and \<open>ErrBufferFull\<close> are the sentinel errors of \<open>io\<close> and
  \<open>bufio\<close>; \<open>Transport\<close> is any other error of the serial port; \<open>New s\<close> is
  \<open>errors.New(s)\<close> and \<open>Errorf s e\<close> is \<open>fmt.Errorf(s + ": %w", e)\<close>.
\<close>

datatype error =
    EOF
  | ErrNoProgress
  | ErrBufferFull
  | Transport string
  | New string
  | Errorf string error

text \<open>A run-time panic of Go: an index outside of a slice.\<close>

datatype panic = IndexOutOfRange

subsection \<open>The transport, the clock and the buffered reader\<close>

text \<open>
  The serial port is scripted: \<open>rscript\<close> lists what the coming calls of \<open>port.Read\<close>
  deliver, \<open>wscript\<close> what the coming calls of \<open>port.Write\<close> answer. A read that finds
  the script exhausted reports \<open>io.EOF\<close> with no data, which is what the port does when
  its inter-character timeout passes with nothing received. Time is a discrete
  \<open>clock\<close>: a \<open>Read\<close> takes one tick plus the \<open>wait\<close> of its chunk; nothing else
  takes time. \<open>selects\<close> lists what the runtime picks where a \<open>select\<close> finds both
  of its cases ready: \<open>True\<close> is the first case, \<open>False\<close> the second, and it is the
  first once the list is exhausted.
\<close>

record chunk =
  wait :: nat
  bytes :: string
  cerr :: "error option"

datatype logmsg = Sending string | ErrorReadingSerial error

text \<open>
  \<open>b_buf\<close>, \<open>b_r\<close>, \<open>b_w\<close> and \<open>b_err\<close> are the fields \<open>buf\<close>, \<open>r\<close>, \<open>w\<close> and \<open>err\<close> of
  the \<open>bufio.Reader\<close> that \<open>ExecuteCommand\<close> puts around the port. \<open>b_buf\<close> is the
  buffer as a store from index to byte: the lines that \<open>ReadLine\<close> returns are slices
  of it, not copies.
\<close>

record world =
  clock :: nat
  rscript :: "chunk list"
  wscript :: "error option list"
  selects :: "bool list"
  written :: "string list"
  logged :: "logmsg list"
  b_buf :: "nat \<Rightarrow> char"
  b_r :: nat
  b_w :: nat
  b_err :: "error option"

text \<open>A byte slice that shares the reader's buffer: \<open>b.buf[s_off : s_off + s_len]\<close>.\<close>

record slice =
  s_off :: nat
  s_len :: nat

definition nil :: slice where
  "nil = \<lparr>s_off = 0, s_len = 0\<rparr>"

text \<open>The bytes a slice holds now, in the world \<open>w\<close>.\<close>

definition bytes_of :: "world \<Rightarrow> slice \<Rightarrow> string" where
  "bytes_of w s = map (b_buf w) [s_off s ..< s_off s + s_len s]"

text \<open>\<open>s[i]\<close>: \<open>None\<close> is the index-out-of-range panic.\<close>

definition index :: "world \<Rightarrow> slice \<Rightarrow> nat \<Rightarrow> char option" where
  "index w s i = (if i < s_len s then Some (b_buf w (s_off s + i)) else None)"

definition defaultBufSize :: nat where
  "defaultBufSize = 4096"

definition log_Printf :: "logmsg \<Rightarrow> world \<Rightarrow> world" where
  "log_Printf m w = w\<lparr>logged := logged w @ [m]\<rparr>"

text \<open>
  \<open>port.Read(p)\<close> with \<open>len(p) = n\<close>: the next chunk of the script, cut to \<open>n\<close> bytes
  (the rest stays for the next call).
\<close>

definition port_Read :: "nat \<Rightarrow> world \<Rightarrow> (string \<times> error option) \<times> world" where
  "port_Read n w =
     (case rscript w of
        [] \<Rightarrow> (([], Some EOF), w\<lparr>clock := Suc (clock w)\<rparr>)
      | c # cs \<Rightarrow>
          if length (bytes c) \<le> n
          then ((bytes c, cerr c), w\<lparr>clock := clock w + Suc (wait c), rscript := cs\<rparr>)
          else ((take n (bytes c), None),
                w\<lparr>clock := clock w + Suc (wait c),
                  rscript := c\<lparr>wait := 0, bytes := drop n (bytes c)\<rparr> # cs\<rparr>))"

text \<open>\<open>port.Write(p)\<close>: the frame is recorded, the answer comes from the script.\<close>

definition port_Write :: "string \<Rightarrow> world \<Rightarrow> error option \<times> world" where
  "port_Write p w =
     (case wscript w of
        [] \<Rightarrow> (None, w\<lparr>written := written w @ [p]\<rparr>)
      | e # es \<Rightarrow> (e, w\<lparr>written := written w @ [p], wscript := es\<rparr>))"

text \<open>\<open>bufio.NewReader(port)\<close>: a fresh buffer of \<open>defaultBufSize\<close> zero bytes.\<close>

definition NewReader :: "world \<Rightarrow> world" where
  "NewReader w = w\<lparr>b_buf := (\<lambda>_. CHR 0x00), b_r := 0, b_w := 0, b_err := None\<rparr>"

definition Buffered :: "world \<Rightarrow> nat" where
  "Buffered w = b_w w - b_r w"

text \<open>\<open>copy(b.buf[at:], d)\<close>.\<close>

definition store :: "(nat \<Rightarrow> char) \<Rightarrow> nat \<Rightarrow> string \<Rightarrow> (nat \<Rightarrow> char)" where
  "store m at d = (\<lambda>i. if at \<le> i \<and> i < at + length d then d ! (i - at) else m i)"

text \<open>
  \<open>(*Reader).fill\<close>: slide the unread bytes to the start of the buffer, then read new
  data behind them, trying at most \<open>maxConsecutiveEmptyReads = 100\<close> times. (Its
  panic on a full buffer is left out: \<open>ReadSlice\<close> calls it only when there is room.)
\<close>

definition slide :: "world \<Rightarrow> world" where
  "slide w =
     (if 0 < b_r w
      then w\<lparr>b_buf := (\<lambda>i. if i < b_w w - b_r w then b_buf w (b_r w + i) else b_buf w i),
             b_w := b_w w - b_r w, b_r := 0\<rparr>
      else w)"

fun fill_loop :: "nat \<Rightarrow> world \<Rightarrow> world" where
  "fill_loop 0 w = w\<lparr>b_err := Some ErrNoProgress\<rparr>"
| "fill_loop (Suc i) w =
     (case port_Read (defaultBufSize - b_w w) w of
        ((d, e), w1) \<Rightarrow>
          let w2 = w1\<lparr>b_buf := store (b_buf w1) (b_w w1) d, b_w := b_w w1 + length d\<rparr>
          in if e \<noteq> None then w2\<lparr>b_err := e\<rparr>
             else if 0 < length d then w2
             else fill_loop i w2)"

definition fill :: "world \<Rightarrow> world" where
  "fill w = fill_loop 100 (slide w)"

text \<open>\<open>bytes.IndexByte\<close>: \<open>None\<close> is \<open>-1\<close>.\<close>

fun IndexByte :: "string \<Rightarrow> char \<Rightarrow> nat option" where
  "IndexByte [] c = None"
| "IndexByte (x # xs) c = (if x = c then Some 0 else map_option Suc (IndexByte xs c))"

lemma port_Read_clock: "clock w < clock (snd (port_Read n w))"
  by (simp add: port_Read_def split: list.split)

lemma port_Read_reader:
  "b_r (snd (port_Read n w)) = b_r w \<and> b_w (snd (port_Read n w)) = b_w w
   \<and> b_err (snd (port_Read n w)) = b_err w \<and> b_buf (snd (port_Read n w)) = b_buf w"
  by (simp add: port_Read_def split: list.split)

lemma fill_loop_progress:
  "b_err w = None \<Longrightarrow>
   b_r (fill_loop i w) = b_r w \<and>
   (b_err (fill_loop i w) \<noteq> None \<and> b_w w \<le> b_w (fill_loop i w)
    \<or> b_w w < b_w (fill_loop i w))"
proof (induction i arbitrary: w)
  case 0
  then show ?case by simp
next
  case (Suc i)
  obtain d e w1 where pr: "port_Read (defaultBufSize - b_w w) w = ((d, e), w1)"
    by (metis prod.exhaust)
  have rd: "b_r w1 = b_r w" "b_w w1 = b_w w" "b_err w1 = b_err w"
    using port_Read_reader [of "defaultBufSize - b_w w" w] pr by simp_all
  let ?w2 = "w1\<lparr>b_buf := store (b_buf w1) (b_w w1) d, b_w := b_w w1 + length d\<rparr>"
  show ?case
  proof (cases "e \<noteq> None \<or> 0 < length d")
    case True
    then show ?thesis using pr rd by (auto simp: Let_def)
  next
    case False
    then have eq: "fill_loop (Suc i) w = fill_loop i ?w2" using pr by (simp add: Let_def)
    have "b_err ?w2 = None" using rd Suc.prems by simp
    from Suc.IH [OF this] show ?thesis using eq rd False by auto
  qed
qed

lemma fill_progress:
  "b_err w = None \<Longrightarrow>
   b_err (fill w) \<noteq> None \<and> Buffered w \<le> Buffered (fill w) \<or> Buffered w < Buffered (fill w)"
proof -
  assume a: "b_err w = None"
  have s: "b_err (slide w) = None" "Buffered (slide w) = Buffered w" "b_r (slide w) = 0"
    using a by (simp_all add: slide_def Buffered_def)
  from fill_loop_progress [OF s(1), of 100] s(2,3) show ?thesis
    by (auto simp: fill_def Buffered_def)
qed

text \<open>
  \<open>(*Reader).ReadSlice('\n')\<close>: search the buffer; report a pending error with what
  is left; report a full buffer; otherwise fill and search again.
\<close>

function ReadSlice :: "world \<Rightarrow> (slice \<times> error option) \<times> world" where
  "ReadSlice w =
     (case IndexByte (map (b_buf w) [b_r w ..< b_w w]) (CHR 0x0A) of
        Some i \<Rightarrow> ((\<lparr>s_off = b_r w, s_len = i + 1\<rparr>, None), w\<lparr>b_r := b_r w + i + 1\<rparr>)
      | None \<Rightarrow>
          if b_err w \<noteq> None
          then ((\<lparr>s_off = b_r w, s_len = b_w w - b_r w\<rparr>, b_err w),
                w\<lparr>b_r := b_w w, b_err := None\<rparr>)
          else if defaultBufSize \<le> Buffered w
          then ((\<lparr>s_off = 0, s_len = defaultBufSize\<rparr>, Some ErrBufferFull), w\<lparr>b_r := b_w w\<rparr>)
          else ReadSlice (fill w))"
  by pat_completeness auto
termination
proof (relation "measure (\<lambda>w. 2 * (defaultBufSize - Buffered w) + (if b_err w = None then 1 else 0))")
  show "wf (measure (\<lambda>w. 2 * (defaultBufSize - Buffered w) + (if b_err w = None then 1 else 0)))"
    by simp
next
  fix w :: world
  assume "\<not> b_err w \<noteq> None" and "\<not> defaultBufSize \<le> Buffered w"
  then show "(fill w, w) \<in> measure (\<lambda>w. 2 * (defaultBufSize - Buffered w) + (if b_err w = None then 1 else 0))"
    using fill_progress [of w] by auto
qed

declare ReadSlice.simps [simp del]

lemma fill_loop_clock: "clock w \<le> clock (fill_loop i w)"
proof (induction i arbitrary: w)
  case 0
  then show ?case by simp
next
  case (Suc i)
  obtain d e w1 where pr: "port_Read (defaultBufSize - b_w w) w = ((d, e), w1)"
    by (metis prod.exhaust)
  have c: "clock w < clock w1"
    using port_Read_clock [of w "defaultBufSize - b_w w"] pr by simp
  let ?w2 = "w1\<lparr>b_buf := store (b_buf w1) (b_w w1) d, b_w := b_w w1 + length d\<rparr>"
  have "clock ?w2 \<le> clock (fill_loop i ?w2)" by (rule Suc.IH)
  then show ?case using pr c by (auto simp: Let_def)
qed

lemma fill_loop_Suc_clock: "clock w < clock (fill_loop (Suc i) w)"
proof -
  obtain d e w1 where pr: "port_Read (defaultBufSize - b_w w) w = ((d, e), w1)"
    by (metis prod.exhaust)
  have c: "clock w < clock w1"
    using port_Read_clock [of w "defaultBufSize - b_w w"] pr by simp
  let ?w2 = "w1\<lparr>b_buf := store (b_buf w1) (b_w w1) d, b_w := b_w w1 + length d\<rparr>"
  have "clock ?w2 \<le> clock (fill_loop i ?w2)" by (rule fill_loop_clock)
  then show ?thesis using pr c by (auto simp: Let_def)
qed

lemma fill_clock: "clock w < clock (fill w)"
proof -
  have "clock (slide w) < clock (fill_loop (Suc 99) (slide w))"
    by (rule fill_loop_Suc_clock)
  moreover have "clock (slide w) = clock w" by (simp add: slide_def)
  moreover have "Suc 99 = 100" by simp
  ultimately show ?thesis unfolding fill_def by metis
qed

text \<open>
  An \<open>io.EOF\<close> out of \<open>ReadSlice\<close> is the pending error of the reader: it was either
  pending before the call, or a \<open>Read\<close> of this call, which took time, set it.
\<close>

lemma ReadSlice_EOF:
  "ReadSlice w = ((s, Some EOF), w') \<Longrightarrow>
   b_err w' = None \<and> (clock w < clock w' \<or> b_err w \<noteq> None \<and> clock w' = clock w)"
proof (induction w rule: ReadSlice.induct)
  case (1 w)
  show ?case
  proof (cases "IndexByte (map (b_buf w) [b_r w ..< b_w w]) (CHR 0x0A)")
    case (Some i)
    then show ?thesis using "1.prems" by (simp add: ReadSlice.simps [of w])
  next
    case None
    show ?thesis
    proof (cases "b_err w \<noteq> None")
      case True
      then show ?thesis using "1.prems" None by (auto simp: ReadSlice.simps [of w])
    next
      case noerr: False
      show ?thesis
      proof (cases "defaultBufSize \<le> Buffered w")
        case True
        then show ?thesis using "1.prems" None noerr by (simp add: ReadSlice.simps [of w])
      next
        case False
        then have eq: "ReadSlice w = ReadSlice (fill w)"
          using None noerr by (simp add: ReadSlice.simps [of w])
        have "b_err w' = None \<and>
              (clock (fill w) < clock w' \<or> b_err (fill w) \<noteq> None \<and> clock w' = clock (fill w))"
          using "1.IH" [OF None noerr False] "1.prems" eq by simp
        then show ?thesis using fill_clock [of w] by auto
      qed
    qed
  qed
qed

text \<open>
  \<open>(*Reader).ReadLine\<close>: the line without its end-of-line bytes, a slice of the
  buffer. A line longer than the buffer comes in pieces (\<open>isPrefix\<close>). An error is
  returned only with no data at all: bytes that are followed by an error and no
  end of line are returned as a line.
\<close>

definition ReadLine :: "world \<Rightarrow> (slice \<times> bool \<times> error option) \<times> world" where
  "ReadLine w =
     (case ReadSlice w of
        ((line, err), w1) \<Rightarrow>
          if err = Some ErrBufferFull then
            if 0 < s_len line \<and> index w1 line (s_len line - 1) = Some (CHR 0x0D)
            then ((line\<lparr>s_len := s_len line - 1\<rparr>, True, None), w1\<lparr>b_r := b_r w1 - 1\<rparr>)
            else ((line, True, None), w1)
          else if s_len line = 0 then ((if err \<noteq> None then nil else line, False, err), w1)
          else
            let drop =
              (if index w1 line (s_len line - 1) = Some (CHR 0x0A)
               then if 1 < s_len line \<and> index w1 line (s_len line - 2) = Some (CHR 0x0D)
                    then 2 else 1
               else 0)
            in ((line\<lparr>s_len := s_len line - drop\<rparr>, False, None), w1))"

lemma ReadLine_EOF:
  assumes "ReadLine w = ((b, p, Some EOF), w')"
  shows "b_err w' = None \<and> (clock w < clock w' \<or> b_err w \<noteq> None \<and> clock w' = clock w)"
proof -
  obtain line err w1 where rs: "ReadSlice w = ((line, err), w1)"
    by (metis prod.exhaust)
  from assms rs have "err = Some EOF \<and> w1 = w'"
    by (auto simp: ReadLine_def Let_def split: if_splits)
  with rs ReadSlice_EOF [of w line w'] show ?thesis by simp
qed

subsection \<open>The cancellable line reader\<close>

text \<open>
  A context with a deadline is the tick at which its \<open>Done\<close> channel closes;
  \<open>context.WithTimeout(context.Background(), d)\<close> sets it \<open>d\<close> ticks from now (a
  duration that is not positive behaves as \<open>0\<close>: the context is done at once).
\<close>

type_synonym Context = nat

definition WithTimeout :: "world \<Rightarrow> nat \<Rightarrow> Context" where
  "WithTimeout w d = clock w + d"

definition Done :: "Context \<Rightarrow> world \<Rightarrow> bool" where
  "Done ctx w = (ctx \<le> clock w)"

text \<open>
  \<open>readLineIgnoreEof\<close>: the loop is the recursion; \<open>case <-ctx.Done()\<close> is tried
  first on every round, \<open>default\<close> reads a line and goes round again on \<open>io.EOF\<close>.
\<close>

function readLineIgnoreEof :: "Context \<Rightarrow> world \<Rightarrow> (slice \<times> error option) \<times> world" where
  "readLineIgnoreEof ctx reader =
     (if Done ctx reader then ((nil, Some (New ''operation timed out'')), reader)
      else
        case ReadLine reader of
          ((b, isPrefix, err), reader1) \<Rightarrow>
            if err = Some EOF then readLineIgnoreEof ctx reader1
            else ((b, err), reader1))"
  by pat_completeness auto
termination
proof (relation "measure (\<lambda>(ctx, w). 2 * (ctx - clock w) + (if b_err w = None then 0 else 1))")
  show "wf (measure (\<lambda>(ctx, w). 2 * (ctx - clock w) + (if b_err w = None then 0 else 1)))"
    by simp
next
  fix ctx :: Context and reader reader1 :: world and x :: "slice \<times> bool \<times> error option"
    and b :: slice and y :: "bool \<times> error option" and isPrefix :: bool and err :: "error option"
  assume "\<not> Done ctx reader" and "(x, reader1) = ReadLine reader" and "(b, y) = x"
    and "(isPrefix, err) = y" and "err = Some EOF"
  then have "ReadLine reader = ((b, isPrefix, Some EOF), reader1)" and "clock reader < ctx"
    by (auto simp: Done_def)
  then show "((ctx, reader1), (ctx, reader))
      \<in> measure (\<lambda>(ctx, w). 2 * (ctx - clock w) + (if b_err w = None then 0 else 1))"
    using ReadLine_EOF [of reader b isPrefix reader1] by auto
qed

declare readLineIgnoreEof.simps [simp del]

subsection \<open>The response waiter\<close>

text \<open>
  \<open>responseCh\<close> is a channel of capacity one: the value in its slot, and whether
  it is closed. A receive takes the value of the slot (\<open>ok = true\<close>), finds a closed
  and empty channel (\<open>ok = false\<close>), or has to wait (\<open>None\<close>).
\<close>

datatype chan = Chan "slice option" bool

definition make_chan :: chan where
  "make_chan = Chan None False"

fun send :: "chan \<Rightarrow> slice \<Rightarrow> chan" where
  "send (Chan slot closed) v = Chan (Some v) closed"

fun close :: "chan \<Rightarrow> chan" where
  "close (Chan slot closed) = Chan slot True"

fun recv :: "chan \<Rightarrow> (slice \<times> bool) option" where
  "recv (Chan (Some v) closed) = Some (v, True)"
| "recv (Chan None True) = Some (nil, False)"
| "recv (Chan None False) = None"

text \<open>
  The worker \<open>goWaitForResponse\<close>, run to its end: the channel as it leaves it (the
  deferred \<open>close\<close> included) and the world at that moment. Each branch of its loop
  returns, so the loop body runs once.
\<close>

definition goWaitForResponse :: "world \<Rightarrow> Context \<Rightarrow> chan \<Rightarrow> chan \<times> world" where
  "goWaitForResponse reader ctx responseCh =
     (if Done ctx reader then (close responseCh, reader)
      else
        case readLineIgnoreEof ctx reader of
          ((framing, err), reader1) \<Rightarrow>
            (case err of
               Some e \<Rightarrow> (close responseCh, log_Printf (ErrorReadingSerial e) reader1)
             | None \<Rightarrow>
                 (case readLineIgnoreEof ctx reader1 of
                    ((line, err), reader2) \<Rightarrow>
                      let reader3 =
                        (case err of
                           Some e \<Rightarrow> log_Printf (ErrorReadingSerial e) reader2
                         | None \<Rightarrow> reader2)
                      in (close (send responseCh line), reader3))))"

text \<open>
  The two cases of the \<open>select\<close> in \<open>waitForResponse\<close>: \<open>case <-ctx.Done()\<close>, and
  \<open>case response, ok := <-responseCh\<close> (with nothing to receive the caller
  waits on, until the deadline).
\<close>

definition case_Done :: "world \<Rightarrow> (slice \<times> error option) \<times> world" where
  "case_Done w = ((nil, Some (New ''operation timed out'')), w)"

definition case_responseCh :: "chan \<Rightarrow> world \<Rightarrow> (slice \<times> error option) \<times> world" where
  "case_responseCh ch w =
     (case recv ch of
        None \<Rightarrow> case_Done w
      | Some (response, ok) \<Rightarrow>
          if \<not> ok then ((nil, Some (New ''channel closed unexpectedly'')), w)
          else ((response, None), w))"

definition pick :: "world \<Rightarrow> bool \<times> world" where
  "pick w = (case selects w of [] \<Rightarrow> (True, w) | p # ps \<Rightarrow> (p, w\<lparr>selects := ps\<rparr>))"

text \<open>
  \<open>waitForResponse\<close>. When the context is done from the start (a timeout of zero),
  the worker leaves at once and closes the channel, and the caller's \<open>select\<close> may
  find both cases ready: the runtime picks. Otherwise the caller blocks in its
  \<open>select\<close> while the worker runs, and the first of the two events releases it:
  the worker's hand-off (a send or the close) when the worker ends before the
  deadline, the deadline when it does not (a hand-off at the very tick of the
  deadline counts as late). After the deadline the caller returns whatever the
  worker does later; the world returned is the one the worker leaves when it
  ends, so where a read is under way at the deadline, it includes what that read
  puts into the buffer afterwards.
\<close>

definition waitForResponse :: "world \<Rightarrow> nat \<Rightarrow> (slice \<times> error option) \<times> world" where
  "waitForResponse reader timeoutDuration =
     (let ctx = WithTimeout reader timeoutDuration;
          responseCh = make_chan
      in case goWaitForResponse reader ctx responseCh of
           (ch, reader1) \<Rightarrow>
             if Done ctx reader then
               (case pick reader1 of
                  (first, reader2) \<Rightarrow>
                    if first then case_Done reader2 else case_responseCh ch reader2)
             else if Done ctx reader1 then case_Done reader1
             else case_responseCh ch reader1)"

subsection \<open>Framing and classification\<close>

text \<open>\<open>WriteCommand\<close> of \<open>wavesharecomm.go\<close>.\<close>

definition WriteCommand :: "world \<Rightarrow> string \<Rightarrow> error option \<times> world" where
  "WriteCommand port cmd =
     (let newCmd = ''AT'' @ (cmd @ [CHR 0x0D, CHR 0x0A])
      in port_Write newCmd (log_Printf (Sending newCmd) port))"

text \<open>\<open>WriteCommand\<close> of \<open>waveshare_comm.go\<close> (it logs with \<open>%v\<close>, not \<open>%s\<close>).\<close>

definition WriteCommand_waveshare_comm :: "world \<Rightarrow> string \<Rightarrow> error option \<times> world" where
  "WriteCommand_waveshare_comm port cmd =
     (let newCmd = ''AT'' @ (cmd @ [CHR 0x0D, CHR 0x0A])
      in port_Write newCmd (log_Printf (Sending newCmd) port))"

definition OkResponseOk :: string where
  "OkResponseOk = [CHR ''O'', CHR ''K'']"

text \<open>
  \<open>bytes.TrimSpace\<close> cuts off leading and trailing white space as Unicode defines
  it, in UTF-8. Below \<open>RuneSelf\<close> these are the six bytes of \<open>asciiSpace\<close>; the other
  white-space code points are U+0085, U+00A0, U+1680, U+2000 to U+200A, U+2028,
  U+2029, U+202F, U+205F and U+3000, listed here by their encodings (a byte
  sequence decodes to one of them exactly when it is its encoding).
\<close>

definition asciiSpace :: "char \<Rightarrow> bool" where
  "asciiSpace c =
     (c = CHR 0x09 \<or> c = CHR 0x0A \<or> c = CHR 0x0B \<or> c = CHR 0x0C \<or> c = CHR 0x0D \<or> c = CHR 0x20)"

definition RuneSelf :: nat where
  "RuneSelf = 0x80"

definition white_space_utf8 :: "string list" where
  "white_space_utf8 =
     [[CHR 0xC2, CHR 0x85], [CHR 0xC2, CHR 0xA0], [CHR 0xE1, CHR 0x9A, CHR 0x80],
      [CHR 0xE2, CHR 0x80, CHR 0x80], [CHR 0xE2, CHR 0x80, CHR 0x81],
      [CHR 0xE2, CHR 0x80, CHR 0x82], [CHR 0xE2, CHR 0x80, CHR 0x83],
      [CHR 0xE2, CHR 0x80, CHR 0x84], [CHR 0xE2, CHR 0x80, CHR 0x85],
      [CHR 0xE2, CHR 0x80, CHR 0x86], [CHR 0xE2, CHR 0x80, CHR 0x87],
      [CHR 0xE2, CHR 0x80, CHR 0x88], [CHR 0xE2, CHR 0x80, CHR 0x89],
      [CHR 0xE2, CHR 0x80, CHR 0x8A], [CHR 0xE2, CHR 0x80, CHR 0xA8],
      [CHR 0xE2, CHR 0x80, CHR 0xA9], [CHR 0xE2, CHR 0x80, CHR 0xAF],
      [CHR 0xE2, CHR 0x81, CHR 0x9F], [CHR 0xE3, CHR 0x80, CHR 0x80]]"

text \<open>
  The width of the rune at the front of \<open>s\<close> when \<open>unicode.IsSpace\<close> holds of it,
  \<open>0\<close> when it does not (or \<open>s\<close> is empty); and the same for the last rune.
\<close>

definition space_first :: "string \<Rightarrow> nat" where
  "space_first s =
     (case s of
        [] \<Rightarrow> 0
      | c # _ \<Rightarrow>
          if of_char c < RuneSelf then (if asciiSpace c then 1 else 0)
          else (case find (\<lambda>e. take (length e) s = e) white_space_utf8 of
                  Some e \<Rightarrow> length e
                | None \<Rightarrow> 0))"

definition space_last :: "string \<Rightarrow> nat" where
  "space_last s =
     (case rev s of
        [] \<Rightarrow> 0
      | c # _ \<Rightarrow>
          if of_char c < RuneSelf then (if asciiSpace c then 1 else 0)
          else (case find (\<lambda>e. take (length e) (rev s) = rev e) white_space_utf8 of
                  Some e \<Rightarrow> length e
                | None \<Rightarrow> 0))"

lemma find_holds: "find P xs = Some e \<Longrightarrow> P e"
  by (induction xs) (auto split: if_splits)

lemma take_eq_length: "take (length e) s = t \<Longrightarrow> length t = length e \<Longrightarrow> length e \<le> length s"
proof -
  assume a: "take (length e) s = t" and b: "length t = length e"
  have "length (take (length e) s) = min (length e) (length s)" by simp
  with a b show ?thesis by simp
qed

lemma space_first_le: "space_first s \<le> length s"
proof (cases s)
  case Nil
  then show ?thesis by (simp add: space_first_def)
next
  case (Cons c cs)
  show ?thesis
  proof (cases "find (\<lambda>e. take (length e) s = e) white_space_utf8")
    case None
    then show ?thesis using Cons by (simp add: space_first_def)
  next
    case (Some e)
    from find_holds [OF Some] have "take (length e) s = e" .
    then have "length e \<le> length s" by (rule take_eq_length) simp
    then show ?thesis using Cons Some by (simp add: space_first_def)
  qed
qed

lemma space_last_le: "space_last s \<le> length s"
proof (cases "rev s")
  case Nil
  then show ?thesis by (simp add: space_last_def)
next
  case (Cons c cs)
  show ?thesis
  proof (cases "find (\<lambda>e. take (length e) (rev s) = rev e) white_space_utf8")
    case None
    then show ?thesis using Cons by (simp add: space_last_def)
  next
    case (Some e)
    from find_holds [OF Some] have "take (length e) (rev s) = rev e" .
    then have "length e \<le> length (rev s)" by (rule take_eq_length) simp
    then show ?thesis using Cons Some by (simp add: space_last_def)
  qed
qed

text \<open>\<open>bytes.TrimLeftFunc(s, unicode.IsSpace)\<close> and \<open>bytes.TrimRightFunc(s, unicode.IsSpace)\<close>.\<close>

function TrimLeftFunc_IsSpace :: "string \<Rightarrow> string" where
  "TrimLeftFunc_IsSpace s =
     (if space_first s = 0 then s else TrimLeftFunc_IsSpace (drop (space_first s) s))"
  by pat_completeness auto
termination
proof (relation "measure length")
  show "wf (measure length)" by simp
next
  fix s :: string
  assume "space_first s \<noteq> 0"
  then show "(drop (space_first s) s, s) \<in> measure length"
    using space_first_le [of s] by auto
qed

function TrimRightFunc_IsSpace :: "string \<Rightarrow> string" where
  "TrimRightFunc_IsSpace s =
     (if space_last s = 0 then s
      else TrimRightFunc_IsSpace (take (length s - space_last s) s))"
  by pat_completeness auto
termination
proof (relation "measure length")
  show "wf (measure length)" by simp
next
  fix s :: string
  assume "space_last s \<noteq> 0"
  then show "(take (length s - space_last s) s, s) \<in> measure length"
    using space_last_le [of s] by auto
qed

declare TrimLeftFunc_IsSpace.simps [simp del] TrimRightFunc_IsSpace.simps [simp del]

definition TrimFunc_IsSpace :: "string \<Rightarrow> string" where
  "TrimFunc_IsSpace s = TrimRightFunc_IsSpace (TrimLeftFunc_IsSpace s)"

text \<open>
  \<open>bytes.TrimSpace\<close>: the fast path walks over ASCII white space from the left, then
  from the right (here on the reversed rest), and hands over to \<open>TrimFunc\<close> at the
  first byte that is not ASCII.
\<close>

fun TrimSpace_stop :: "string \<Rightarrow> string" where
  "TrimSpace_stop [] = []"
| "TrimSpace_stop (c # r) =
     (if RuneSelf \<le> of_char c then TrimFunc_IsSpace (rev (c # r))
      else if asciiSpace c then TrimSpace_stop r
      else rev (c # r))"

fun TrimSpace_start :: "string \<Rightarrow> string" where
  "TrimSpace_start [] = []"
| "TrimSpace_start (c # s) =
     (if RuneSelf \<le> of_char c then TrimFunc_IsSpace (c # s)
      else if asciiSpace c then TrimSpace_start s
      else TrimSpace_stop (rev (c # s)))"

definition TrimSpace :: "string \<Rightarrow> string" where
  "TrimSpace s = TrimSpace_start s"

subsection \<open>The command executor\<close>

record outcome =
  o_response :: string
  o_ok :: bool
  o_err :: "error option"

text \<open>
  \<open>ExecuteCommand\<close>. \<open>response\<close> and \<open>okResponse\<close> are slices of the reader's buffer;
  \<open>o_response\<close> is what the returned slice holds when the function returns.
  \<open>first_is_plus\<close> is the condition \<open>(len(response) >= 1) && (response[0] == byte('+'))\<close>:
  \<open>response[0]\<close> is evaluated only when \<open>len(response) >= 1\<close> holds, and \<open>None\<close> is
  the panic of an index out of range.
\<close>

definition first_is_plus :: "world \<Rightarrow> slice \<Rightarrow> bool option" where
  "first_is_plus reader response =
     (if 1 \<le> s_len response
      then map_option (\<lambda>b. b = CHR ''+'') (index reader response 0)
      else Some False)"

definition ExecuteCommand :: "world \<Rightarrow> string \<Rightarrow> nat \<Rightarrow> panic + (outcome \<times> world)" where
  "ExecuteCommand port cmd timeoutDuration =
     (case WriteCommand port cmd of
        (Some e, port1) \<Rightarrow>
          Inr (\<lparr>o_response = [], o_ok = False,
                o_err = Some (Errorf ''error writing command to port'' e)\<rparr>, port1)
      | (None, port1) \<Rightarrow>
          let reader = NewReader port1 in
          (case waitForResponse reader timeoutDuration of
             ((response, Some e), reader1) \<Rightarrow>
               Inr (\<lparr>o_response = bytes_of reader1 response, o_ok = False,
                     o_err = Some (Errorf ''error getting response from port'' e)\<rparr>, reader1)
           | ((response, None), reader1) \<Rightarrow>
               (case first_is_plus reader1 response of
                  None \<Rightarrow> Inl IndexOutOfRange
                | Some True \<Rightarrow>
                    (case waitForResponse reader1 timeoutDuration of
                       ((okResponse, Some e), reader2) \<Rightarrow>
                         Inr (\<lparr>o_response = bytes_of reader2 response, o_ok = False,
                               o_err = Some (Errorf ''error getting ok response from port'' e)\<rparr>,
                              reader2)
                     | ((okResponse, None), reader2) \<Rightarrow>
                         Inr (\<lparr>o_response = bytes_of reader2 response,
                               o_ok = (TrimSpace (bytes_of reader2 okResponse) = OkResponseOk),
                               o_err = None\<rparr>, reader2))
                | Some False \<Rightarrow>
                    Inr (\<lparr>o_response = bytes_of reader1 response,
                          o_ok = (TrimSpace (bytes_of reader1 response) = OkResponseOk),
                          o_err = None\<rparr>, reader1))))"

text \<open>
  \<open>fmt.Sprintf(format, a)\<close> for a format with the one verb \<open>%s\<close> and a string
  operand: the operand takes the place of the verb, byte for byte.
\<close>

fun Sprintf :: "string \<Rightarrow> string \<Rightarrow> string" where
  "Sprintf (c # d # f) a =
     (if c = CHR ''%'' \<and> d = CHR ''s'' then a @ f else c # Sprintf (d # f) a)"
| "Sprintf f a = f"

definition ExecuteCommandRead :: "world \<Rightarrow> string \<Rightarrow> nat \<Rightarrow> panic + (outcome \<times> world)" where
  "ExecuteCommandRead port cmd timeoutDuration =
     ExecuteCommand port (Sprintf ''+%s?'' cmd) timeoutDuration"

definition ExecuteCommandExecute :: "world \<Rightarrow> string \<Rightarrow> nat \<Rightarrow> panic + (outcome \<times> world)" where
  "ExecuteCommandExecute port cmd timeoutDuration =
     ExecuteCommand port (Sprintf ''+%s'' cmd) timeoutDuration"

definition CmdStart :: string where
  "CmdStart = []"


definition CmdEcho :: string where
  "CmdEcho = ''E1''"

definition CmdNetworkOperator :: string where
  "CmdNetworkOperator = ''COPS''"

subsection \<open>Scripted transports\<close>

text \<open>
  A port that has just been opened, with the reads of \<open>sc\<close> ahead and every write
  succeeding; a read that delivers bytes, and one that fails.
\<close>

definition CRLF :: string where
  "CRLF = [CHR 0x0D, CHR 0x0A]"

definition scripted :: "chunk list \<Rightarrow> world" where
  "scripted sc =
     \<lparr>clock = 0, rscript = sc, wscript = [], selects = [], written = [], logged = [],
      b_buf = (\<lambda>_. CHR 0x00), b_r = 0, b_w = 0, b_err = None\<rparr>"

definition delivers :: "string \<Rightarrow> chunk" where
  "delivers s = \<lparr>wait = 0, bytes = s, cerr = None\<rparr>"

definition fails :: "error \<Rightarrow> chunk" where
  "fails e = \<lparr>wait = 0, bytes = [], cerr = Some e\<rparr>"

text \<open>The payload line \<open>+COPS: 0,0,"Carrier"\<close>.\<close>

definition cops_line :: string where
  "cops_line = ''+COPS: 0,0,'' @ [CHR 0x22] @ ''Carrier'' @ [CHR 0x22]"

text \<open>
  Three ways for the device to answer \<open>AT+COPS?\<close>: as the spec's example has it,
  with no framing line before the status line; with that framing line, each line
  in a read of its own; and with that framing line, all in one read.
\<close>

definition spec_script :: "chunk list" where
  "spec_script = [delivers CRLF, delivers (cops_line @ CRLF), delivers (''OK'' @ CRLF)]"

definition framed_script :: "chunk list" where
  "framed_script =
     [delivers CRLF, delivers (cops_line @ CRLF), delivers CRLF, delivers (''OK'' @ CRLF)]"

definition burst_script :: "chunk list" where
  "burst_script = [delivers (CRLF @ cops_line @ CRLF @ CRLF @ ''OK'' @ CRLF)]"

text \<open>The framed answer again, each of its two framing lines 900 ticks late.\<close>

definition slow_script :: "chunk list" where
  "slow_script =
     [\<lparr>wait = 900, bytes = CRLF, cerr = None\<rparr>, delivers (cops_line @ CRLF),
      \<lparr>wait = 900, bytes = CRLF, cerr = None\<rparr>, delivers (''OK'' @ CRLF)]"

text \<open>
  A reader with nothing buffered, on a port whose every read reports \<open>io.EOF\<close> and
  delivers no byte (after any wait).
\<close>

definition silent :: "world \<Rightarrow> bool" where
  "silent w =
     (list_all (\<lambda>c. bytes c = [] \<and> cerr c = Some EOF) (rscript w)
      \<and> b_w w \<le> b_r w \<and> (b_err w = None \<or> b_err w = Some EOF))"

text \<open>
  The white-space characters of Unicode in UTF-8: what the spec's trimming
  removes, one character after the other, at both ends of a line.
\<close>

definition white_space :: "string list" where
  "white_space =
     [[CHR 0x09], [CHR 0x0A], [CHR 0x0B], [CHR 0x0C], [CHR 0x0D], [CHR 0x20]] @ white_space_utf8"

section \<open>Properties\<close>

subsection \<open>Framing\<close>

text \<open>
  Claim C4. For every command body \<open>b\<close>, whatever its bytes, the frame that
  \<open>WriteCommand\<close> hands to the port's \<open>Write\<close> is \<open>"AT"\<close>, then \<open>b\<close>, then
  carriage return and line feed; this holds of the \<open>WriteCommand\<close> of both packages.
\<close>

theorem WriteCommand_frame:
  "written (snd (WriteCommand port b)) = written port @ [''AT'' @ b @ [CHR 0x0D, CHR 0x0A]]
   \<and> written (snd (WriteCommand_waveshare_comm port b))
       = written port @ [''AT'' @ b @ [CHR 0x0D, CHR 0x0A]]"
  by (simp add: WriteCommand_def WriteCommand_waveshare_comm_def port_Write_def log_Printf_def
      Let_def split: list.split)

text \<open>
  Claim C6. \<open>ExecuteCommandRead\<close> is \<open>ExecuteCommand\<close> on the body \<open>"+" + b + "?"\<close>
  and \<open>ExecuteCommandExecute\<close> is \<open>ExecuteCommand\<close> on \<open>"+" + b\<close>, with the same port
  and timeout: the results and the final states are equal, so the wrappers do
  nothing else.
\<close>

theorem wrappers_reshape_body:
  "ExecuteCommandRead port b t = ExecuteCommand port (''+'' @ b @ ''?'') t
   \<and> ExecuteCommandExecute port b t = ExecuteCommand port (''+'' @ b) t"
  by (simp add: ExecuteCommandRead_def ExecuteCommandExecute_def)

subsection \<open>The cancellable line reader\<close>

lemma readLine_Done:
  "Done ctx reader \<Longrightarrow>
   readLineIgnoreEof ctx reader = ((nil, Some (New ''operation timed out'')), reader)"
  by (simp add: readLineIgnoreEof.simps [of ctx reader])

lemma readLine_retry:
  "\<not> Done ctx reader \<Longrightarrow> ReadLine reader = ((b, p, Some EOF), reader1) \<Longrightarrow>
   readLineIgnoreEof ctx reader = readLineIgnoreEof ctx reader1"
  by (simp add: readLineIgnoreEof.simps [of ctx reader])

lemma readLine_return:
  "\<not> Done ctx reader \<Longrightarrow> ReadLine reader = ((b, p, err), reader1) \<Longrightarrow> err \<noteq> Some EOF \<Longrightarrow>
   readLineIgnoreEof ctx reader = ((b, err), reader1)"
  by (simp add: readLineIgnoreEof.simps [of ctx reader])

lemma readLine_never_EOF: "snd (fst (readLineIgnoreEof ctx reader)) \<noteq> Some EOF"
proof (induction ctx reader rule: readLineIgnoreEof.induct)
  case (1 ctx reader)
  show ?case
  proof (cases "Done ctx reader")
    case True
    then show ?thesis by (simp add: readLine_Done)
  next
    case False
    obtain b p err reader1 where rl: "ReadLine reader = ((b, p, err), reader1)"
      by (metis prod.exhaust)
    show ?thesis
    proof (cases "err = Some EOF")
      case True
      with False rl "1.IH" [of "(b, p, err)" reader1 b "(p, err)" p err] show ?thesis
        by (simp add: readLine_retry)
    next
      case neq: False
      with False rl show ?thesis by (simp add: readLine_return)
    qed
  qed
qed

text \<open>
  Claim C7. Every round of the reader's loop first looks at the deadline, and
  fails with the timeout error when it has passed. Otherwise it reads one line: on
  \<open>io.EOF\<close> it goes round again from the state that read left, on anything else
  (a line, or any other error) it returns that at once. \<open>io.EOF\<close> is never what the
  reader returns.
\<close>

theorem readLineIgnoreEof_loop:
  "(Done ctx reader \<longrightarrow>
      readLineIgnoreEof ctx reader = ((nil, Some (New ''operation timed out'')), reader))
   \<and> (\<not> Done ctx reader \<longrightarrow> ReadLine reader = ((b, p, Some EOF), reader1) \<longrightarrow>
      readLineIgnoreEof ctx reader = readLineIgnoreEof ctx reader1)
   \<and> (\<not> Done ctx reader \<longrightarrow> ReadLine reader = ((b, p, err), reader1) \<longrightarrow> err \<noteq> Some EOF \<longrightarrow>
      readLineIgnoreEof ctx reader = ((b, err), reader1))
   \<and> snd (fst (readLineIgnoreEof ctx reader)) \<noteq> Some EOF"
  using readLine_Done readLine_retry readLine_return readLine_never_EOF by blast

text \<open>
  The three cases on an idle port at its deadline, on an idle port before it, and
  on a port that delivers \<open>OK\<close>; and a failing read, whose error comes back.
\<close>

theorem readLineIgnoreEof_loop_witness:
  "readLineIgnoreEof 0 (scripted []) = ((nil, Some (New ''operation timed out'')), scripted [])
   \<and> readLineIgnoreEof 3 (scripted []) = readLineIgnoreEof 3 (snd (ReadLine (scripted [])))
   \<and> readLineIgnoreEof 3 (scripted [delivers (''OK'' @ CRLF)])
       = ((\<lparr>s_off = 0, s_len = 2\<rparr>, None), snd (ReadLine (scripted [delivers (''OK'' @ CRLF)])))
   \<and> readLineIgnoreEof 3 (scripted [fails (Transport ''input/output error'')])
       = ((nil, Some (Transport ''input/output error'')),
          snd (ReadLine (scripted [fails (Transport ''input/output error'')])))"
proof -
  have d0: "Done 0 (scripted [])" by (simp add: Done_def)
  have d3: "\<And>sc. \<not> Done 3 (scripted sc)" by (simp add: Done_def scripted_def)
  have "fst (ReadLine (scripted [])) = (nil, False, Some EOF)" by code_simp
  then have r1: "ReadLine (scripted []) = ((nil, False, Some EOF), snd (ReadLine (scripted [])))"
    by (metis prod.collapse)
  have "fst (ReadLine (scripted [delivers (''OK'' @ CRLF)])) = (\<lparr>s_off = 0, s_len = 2\<rparr>, False, None)"
    by code_simp
  then have r2: "ReadLine (scripted [delivers (''OK'' @ CRLF)])
      = ((\<lparr>s_off = 0, s_len = 2\<rparr>, False, None), snd (ReadLine (scripted [delivers (''OK'' @ CRLF)])))"
    by (metis prod.collapse)
  have "fst (ReadLine (scripted [fails (Transport ''input/output error'')]))
      = (nil, False, Some (Transport ''input/output error''))"
    by code_simp
  then have r3: "ReadLine (scripted [fails (Transport ''input/output error'')])
      = ((nil, False, Some (Transport ''input/output error'')),
         snd (ReadLine (scripted [fails (Transport ''input/output error'')])))"
    by (metis prod.collapse)
  show ?thesis
    using readLineIgnoreEof_loop [of 0 "scripted []"] d0
      readLineIgnoreEof_loop [of 3 "scripted []" nil False "snd (ReadLine (scripted []))"] r1
      readLineIgnoreEof_loop [where ctx = 3 and reader = "scripted [delivers (''OK'' @ CRLF)]"
        and b = "\<lparr>s_off = 0, s_len = 2\<rparr>" and p = False and err = None
        and ?reader1.0 = "snd (ReadLine (scripted [delivers (''OK'' @ CRLF)]))"] r2
      readLineIgnoreEof_loop [where ctx = 3
        and reader = "scripted [fails (Transport ''input/output error'')]"
        and b = nil and p = False and err = "Some (Transport ''input/output error'')"
        and ?reader1.0 = "snd (ReadLine (scripted [fails (Transport ''input/output error'')]))"] r3
      d3
    by simp
qed

subsection \<open>The worker, the waiter and the executor, case by case\<close>

text \<open>An error of the line reader comes with no bytes.\<close>

lemma readLine_error_nil:
  "readLineIgnoreEof ctx reader = ((line, Some e), reader1) \<Longrightarrow> line = nil"
proof (induction ctx reader rule: readLineIgnoreEof.induct)
  case (1 ctx reader)
  show ?case
  proof (cases "Done ctx reader")
    case True
    with "1.prems" show ?thesis by (simp add: readLine_Done)
  next
    case False
    obtain b p err r1 where rl: "ReadLine reader = ((b, p, err), r1)"
      by (metis prod.exhaust)
    show ?thesis
    proof (cases "err = Some EOF")
      case True
      with False rl "1.prems" have "readLineIgnoreEof ctx r1 = ((line, Some e), reader1)"
        by (simp add: readLine_retry)
      with "1.IH" [of "(b, p, err)" r1 b "(p, err)" p err] False rl True show ?thesis by simp
    next
      case neq: False
      with False rl "1.prems" have eq: "b = line" "err = Some e" "r1 = reader1"
        by (simp_all add: readLine_return)
      obtain sl se w1 where rs: "ReadSlice reader = ((sl, se), w1)" by (metis prod.exhaust)
      from rl rs eq show ?thesis
        by (auto simp: ReadLine_def Let_def split: if_splits)
    qed
  qed
qed

lemma go_first_fails:
  "\<not> Done ctx reader \<Longrightarrow> readLineIgnoreEof ctx reader = ((framing, Some e), reader1) \<Longrightarrow>
   goWaitForResponse reader ctx make_chan
     = (Chan None True, log_Printf (ErrorReadingSerial e) reader1)"
  by (simp add: goWaitForResponse_def make_chan_def)

lemma go_second:
  "\<not> Done ctx reader \<Longrightarrow> readLineIgnoreEof ctx reader = ((framing, None), reader1) \<Longrightarrow>
   readLineIgnoreEof ctx reader1 = ((line, err), reader2) \<Longrightarrow>
   goWaitForResponse reader ctx make_chan
     = (Chan (Some line) True,
        case err of Some e \<Rightarrow> log_Printf (ErrorReadingSerial e) reader2 | None \<Rightarrow> reader2)"
  by (simp add: goWaitForResponse_def make_chan_def Let_def)

lemma go_Done:
  "Done ctx reader \<Longrightarrow> goWaitForResponse reader ctx make_chan = (Chan None True, reader)"
  by (simp add: goWaitForResponse_def make_chan_def)

lemma Done_log [simp]: "Done ctx (log_Printf m w) = Done ctx w"
  by (simp add: Done_def log_Printf_def)


lemma wait_select:
  "\<not> Done (WithTimeout reader t) reader \<Longrightarrow>
   goWaitForResponse reader (WithTimeout reader t) make_chan = (ch, reader1) \<Longrightarrow>
   waitForResponse reader t =
     (if Done (WithTimeout reader t) reader1 then ((nil, Some (New ''operation timed out'')), reader1)
      else case recv ch of
             None \<Rightarrow> ((nil, Some (New ''operation timed out'')), reader1)
           | Some (response, ok) \<Rightarrow>
               if ok then ((response, None), reader1)
               else ((nil, Some (New ''channel closed unexpectedly'')), reader1))"
  by (auto simp: waitForResponse_def case_Done_def case_responseCh_def Let_def
      split: option.split)

text \<open>With the context done from the start, the runtime's pick decides.\<close>

lemma wait_Done_from_start:
  "Done (WithTimeout reader t) reader \<Longrightarrow>
   waitForResponse reader t =
     (if fst (pick reader) then ((nil, Some (New ''operation timed out'')), snd (pick reader))
      else ((nil, Some (New ''channel closed unexpectedly'')), snd (pick reader)))"
  by (simp add: waitForResponse_def go_Done case_Done_def case_responseCh_def Let_def
      split: prod.split)

lemma plus_cond:
  "first_is_plus reader response = Some (index reader response 0 = Some (CHR ''+''))"
  by (auto simp: first_is_plus_def index_def)

lemma ExecuteCommand_no_panic: "ExecuteCommand port cmd t \<noteq> Inl p"
  by (auto simp: ExecuteCommand_def Let_def plus_cond
      split: prod.splits option.splits bool.splits)


lemma ExecuteCommand_direct:
  "WriteCommand port cmd = (None, port1) \<Longrightarrow>
   waitForResponse (NewReader port1) t = ((response, None), reader1) \<Longrightarrow>
   index reader1 response 0 \<noteq> Some (CHR ''+'') \<Longrightarrow>
   ExecuteCommand port cmd t =
     Inr (\<lparr>o_response = bytes_of reader1 response,
           o_ok = (TrimSpace (bytes_of reader1 response) = OkResponseOk),
           o_err = None\<rparr>, reader1)"
  by (simp add: ExecuteCommand_def plus_cond)

lemma ExecuteCommand_status:
  "WriteCommand port cmd = (None, port1) \<Longrightarrow>
   waitForResponse (NewReader port1) t = ((response, None), reader1) \<Longrightarrow>
   index reader1 response 0 = Some (CHR ''+'') \<Longrightarrow>
   waitForResponse reader1 t = ((okResponse, None), reader2) \<Longrightarrow>
   ExecuteCommand port cmd t =
     Inr (\<lparr>o_response = bytes_of reader2 response,
           o_ok = (TrimSpace (bytes_of reader2 okResponse) = OkResponseOk),
           o_err = None\<rparr>, reader2)"
  by (simp add: ExecuteCommand_def plus_cond)

lemma ExecuteCommand_status_fails:
  "WriteCommand port cmd = (None, port1) \<Longrightarrow>
   waitForResponse (NewReader port1) t = ((response, None), reader1) \<Longrightarrow>
   index reader1 response 0 = Some (CHR ''+'') \<Longrightarrow>
   waitForResponse reader1 t = ((okResponse, Some e), reader2) \<Longrightarrow>
   ExecuteCommand port cmd t =
     Inr (\<lparr>o_response = bytes_of reader2 response, o_ok = False,
           o_err = Some (Errorf ''error getting ok response from port'' e)\<rparr>, reader2)"
  by (simp add: ExecuteCommand_def plus_cond)

lemma TrimSpace_Nil: "TrimSpace [] = []"
  by (simp add: TrimSpace_def)

subsection \<open>Empty payload lines\<close>

text \<open>
  Claim C10. \<open>ExecuteCommand\<close> never panics on an index out of range. When the
  first wait returns a payload line of length zero, \<open>response[0]\<close> is not a byte
  of the line (the guard \<open>len(response) >= 1\<close> keeps the code from reading it), the
  line is classified directly, and the result is the empty payload, \<open>ok = false\<close>
  and a nil error.
\<close>

theorem empty_payload_direct:
  "ExecuteCommand port cmd t \<noteq> Inl IndexOutOfRange
   \<and> (WriteCommand port cmd = (None, port1) \<longrightarrow>
      waitForResponse (NewReader port1) t = ((response, None), reader1) \<longrightarrow>
      s_len response = 0 \<longrightarrow>
      index reader1 response 0 = None
      \<and> ExecuteCommand port cmd t =
          Inr (\<lparr>o_response = [], o_ok = False, o_err = None\<rparr>, reader1))"
proof -
  have "index reader1 response 0 = None \<and> bytes_of reader1 response = []"
    if "s_len response = 0"
    using that by (simp add: index_def bytes_of_def)
  then show ?thesis
    using ExecuteCommand_no_panic [of port cmd t IndexOutOfRange]
      ExecuteCommand_direct [of port cmd port1 t response reader1]
    by (auto simp: TrimSpace_Nil OkResponseOk_def)
qed

text \<open>A device that answers the bare \<open>AT\<close> with two empty lines.\<close>

theorem empty_payload_direct_witness:
  "fst (WriteCommand (scripted [delivers CRLF, delivers CRLF]) CmdStart) = None
   \<and> fst (waitForResponse
        (NewReader (snd (WriteCommand (scripted [delivers CRLF, delivers CRLF]) CmdStart))) 1000)
      = (\<lparr>s_off = 0, s_len = 0\<rparr>, None)
   \<and> map_sum id fst (ExecuteCommand (scripted [delivers CRLF, delivers CRLF]) CmdStart 1000)
      = Inr \<lparr>o_response = [], o_ok = False, o_err = None\<rparr>"
proof -
  let ?p = "scripted [delivers CRLF, delivers CRLF]"
  let ?p1 = "snd (WriteCommand ?p CmdStart)"
  let ?r1 = "snd (waitForResponse (NewReader ?p1) 1000)"
  have a: "fst (WriteCommand ?p CmdStart) = None" by code_simp
  have b: "fst (waitForResponse (NewReader ?p1) 1000) = (\<lparr>s_off = 0, s_len = 0\<rparr>, None)"
    by code_simp
  from a have a': "WriteCommand ?p CmdStart = (None, ?p1)" by (metis prod.collapse)
  from b have b': "waitForResponse (NewReader ?p1) 1000 = ((\<lparr>s_off = 0, s_len = 0\<rparr>, None), ?r1)"
    by (metis prod.collapse)
  from empty_payload_direct [of ?p CmdStart 1000 ?p1 "\<lparr>s_off = 0, s_len = 0\<rparr>" ?r1] a' b'
  have "ExecuteCommand ?p CmdStart 1000
      = Inr (\<lparr>o_response = [], o_ok = False, o_err = None\<rparr>, ?r1)"
    by simp
  with a b show ?thesis by simp
qed

subsection \<open>Errors of the worker's reads\<close>

text \<open>
  Claim C9. When the worker's first read has returned a line and its second read
  fails with any error \<open>e\<close> (the timeout error of the deadline included), the
  worker logs \<open>e\<close> and nothing else happens to the world, the line it sends is the
  empty one that came with the error, and it is in the channel's slot when the
  worker ends. A caller whose deadline has not passed by then receives that line
  with a nil error.
\<close>

theorem second_read_error_is_sent:
  "\<not> Done ctx reader \<Longrightarrow>
   readLineIgnoreEof ctx reader = ((framing, None), reader1) \<Longrightarrow>
   readLineIgnoreEof ctx reader1 = ((line, Some e), reader2) \<Longrightarrow>
   goWaitForResponse reader ctx make_chan
     = (Chan (Some line) True, log_Printf (ErrorReadingSerial e) reader2)
   \<and> recv (fst (goWaitForResponse reader ctx make_chan)) = Some (line, True)
   \<and> line = nil
   \<and> (ctx = WithTimeout reader t \<longrightarrow> \<not> Done ctx reader2 \<longrightarrow>
        waitForResponse reader t = ((line, None), log_Printf (ErrorReadingSerial e) reader2))"
proof -
  assume nd: "\<not> Done ctx reader"
    and r1: "readLineIgnoreEof ctx reader = ((framing, None), reader1)"
    and r2: "readLineIgnoreEof ctx reader1 = ((line, Some e), reader2)"
  have go: "goWaitForResponse reader ctx make_chan
      = (Chan (Some line) True, log_Printf (ErrorReadingSerial e) reader2)"
    using go_second [OF nd r1 r2] by simp
  have nil: "line = nil" using r2 by (rule readLine_error_nil)
  have "waitForResponse reader t = ((line, None), log_Printf (ErrorReadingSerial e) reader2)"
    if "ctx = WithTimeout reader t" and "\<not> Done ctx reader2"
    using that nd go wait_select [of reader t "Chan (Some line) True"
        "log_Printf (ErrorReadingSerial e) reader2"]
    by simp
  with go nil show ?thesis by simp
qed

text \<open>
  A port that sends the framing line and then fails: the caller gets the empty line
  and no error, and the log has the error.
\<close>

theorem second_read_error_is_sent_witness:
  "fst (waitForResponse (scripted [delivers CRLF, fails (Transport ''input/output error'')]) 1000)
     = (nil, None)
   \<and> logged (snd (waitForResponse
        (scripted [delivers CRLF, fails (Transport ''input/output error'')]) 1000))
     = [ErrorReadingSerial (Transport ''input/output error'')]"
proof -
  let ?w = "scripted [delivers CRLF, fails (Transport ''input/output error'')]"
  let ?w1 = "snd (readLineIgnoreEof 1000 ?w)"
  let ?w2 = "snd (readLineIgnoreEof 1000 ?w1)"
  have ctx: "WithTimeout ?w 1000 = 1000" by code_simp
  have nd: "\<not> Done 1000 ?w" by code_simp
  have "fst (readLineIgnoreEof 1000 ?w) = (nil, None)" by code_simp
  then have r1: "readLineIgnoreEof 1000 ?w = ((nil, None), ?w1)" by (metis prod.collapse)
  have "fst (readLineIgnoreEof 1000 ?w1) = (nil, Some (Transport ''input/output error''))"
    by code_simp
  then have r2: "readLineIgnoreEof 1000 ?w1 = ((nil, Some (Transport ''input/output error'')), ?w2)"
    by (metis prod.collapse)
  have nd2: "\<not> Done 1000 ?w2" by code_simp
  have lg: "logged ?w2 = []" by code_simp
  from second_read_error_is_sent [OF nd r1 r2, of 1000] ctx nd2
  have "waitForResponse ?w 1000
      = ((nil, None), log_Printf (ErrorReadingSerial (Transport ''input/output error'')) ?w2)"
    by simp
  with lg show ?thesis by (simp add: log_Printf_def)
qed

subsection \<open>The closed channel\<close>

text \<open>
  Claim C8, as the code has it. \<open>waitForResponse\<close> returns the error "channel closed
  unexpectedly" only when the worker has ended without delivering a result (the
  channel is closed and its slot empty). An error of the worker's first read does
  surface this way: when that read fails and the deadline has not passed, the
  worker logs the error and leaves, and the caller gets "channel closed
  unexpectedly". An error of the second read never does.
\<close>

theorem channel_closed_only_without_delivery:
  "(snd (fst (waitForResponse reader t)) = Some (New ''channel closed unexpectedly'') \<longrightarrow>
      fst (goWaitForResponse reader (WithTimeout reader t) make_chan) = Chan None True)
   \<and> (ctx = WithTimeout reader t \<longrightarrow> \<not> Done ctx reader \<longrightarrow>
      readLineIgnoreEof ctx reader = ((framing, Some e), reader1) \<longrightarrow> \<not> Done ctx reader1 \<longrightarrow>
      waitForResponse reader t
        = ((nil, Some (New ''channel closed unexpectedly'')),
           log_Printf (ErrorReadingSerial e) reader1))
   \<and> (ctx = WithTimeout reader t \<longrightarrow> \<not> Done ctx reader \<longrightarrow>
      readLineIgnoreEof ctx reader = ((framing, None), reader1) \<longrightarrow>
      snd (fst (waitForResponse reader t)) \<noteq> Some (New ''channel closed unexpectedly''))"
proof -
  let ?ctx = "WithTimeout reader t"
  have only: "fst (goWaitForResponse reader ?ctx make_chan) = Chan None True"
    if cl: "snd (fst (waitForResponse reader t)) = Some (New ''channel closed unexpectedly'')"
  proof (cases "Done ?ctx reader")
    case True
    then show ?thesis by (simp add: go_Done)
  next
    case False
    obtain f err r1 where r1: "readLineIgnoreEof ?ctx reader = ((f, err), r1)"
      by (metis prod.exhaust)
    show ?thesis
    proof (cases err)
      case (Some e')
      with r1 have "readLineIgnoreEof ?ctx reader = ((f, Some e'), r1)" by simp
      from go_first_fails [OF False this] show ?thesis by simp
    next
      case None
      with r1 have r1': "readLineIgnoreEof ?ctx reader = ((f, None), r1)" by simp
      obtain line err2 r2 where r2: "readLineIgnoreEof ?ctx r1 = ((line, err2), r2)"
        by (metis prod.exhaust)
      from wait_select [OF False go_second [OF False r1' r2]] cl show ?thesis
        by (simp split: if_splits)
    qed
  qed
  have first: "waitForResponse reader t
      = ((nil, Some (New ''channel closed unexpectedly'')), log_Printf (ErrorReadingSerial e) reader1)"
    if "ctx = WithTimeout reader t" "\<not> Done ctx reader"
      "readLineIgnoreEof ctx reader = ((framing, Some e), reader1)" "\<not> Done ctx reader1"
  proof -
    from that have nd: "\<not> Done ?ctx reader"
      and r: "readLineIgnoreEof ?ctx reader = ((framing, Some e), reader1)"
      and nd1: "\<not> Done ?ctx reader1" by simp_all
    from wait_select [OF nd go_first_fails [OF nd r]] nd1 show ?thesis by (simp add: nil_def)
  qed
  have second: "snd (fst (waitForResponse reader t)) \<noteq> Some (New ''channel closed unexpectedly'')"
    if "ctx = WithTimeout reader t" "\<not> Done ctx reader"
      "readLineIgnoreEof ctx reader = ((framing, None), reader1)"
  proof -
    from that have nd: "\<not> Done ?ctx reader"
      and r: "readLineIgnoreEof ?ctx reader = ((framing, None), reader1)" by simp_all
    obtain line err2 r2 where r2: "readLineIgnoreEof ?ctx reader1 = ((line, err2), r2)"
      by (metis prod.exhaust)
    from wait_select [OF nd go_second [OF nd r r2]] show ?thesis by simp
  qed
  from only first second show ?thesis by blast
qed

text \<open>
  A timeout of zero where the runtime picks the closed channel: the worker has left
  without an error and without a read. A port whose first read fails. A port
  whose second read fails: the caller gets the empty line and no error.
\<close>

theorem channel_closed_only_without_delivery_witness:
  "fst (waitForResponse ((scripted [])\<lparr>selects := [False]\<rparr>) 0)
     = (nil, Some (New ''channel closed unexpectedly''))
   \<and> fst (goWaitForResponse ((scripted [])\<lparr>selects := [False]\<rparr>)
        (WithTimeout ((scripted [])\<lparr>selects := [False]\<rparr>) 0) make_chan) = Chan None True
   \<and> logged (snd (waitForResponse ((scripted [])\<lparr>selects := [False]\<rparr>) 0)) = []
   \<and> fst (waitForResponse (scripted [fails (Transport ''input/output error'')]) 1000)
     = (nil, Some (New ''channel closed unexpectedly''))
   \<and> fst (waitForResponse (scripted [delivers CRLF, fails (Transport ''input/output error'')]) 1000)
     = (nil, None)"
proof -
  let ?z = "(scripted [])\<lparr>selects := [False]\<rparr>"
  have z1: "fst (waitForResponse ?z 0) = (nil, Some (New ''channel closed unexpectedly''))"
    by code_simp
  have z3: "logged (snd (waitForResponse ?z 0)) = []" by code_simp
  from z1 have "snd (fst (waitForResponse ?z 0)) = Some (New ''channel closed unexpectedly'')"
    by simp
  with channel_closed_only_without_delivery [of ?z 0]
  have z2: "fst (goWaitForResponse ?z (WithTimeout ?z 0) make_chan) = Chan None True" by blast

  let ?w = "scripted [fails (Transport ''input/output error'')]"
  let ?w1 = "snd (readLineIgnoreEof (WithTimeout ?w 1000) ?w)"
  have nd: "\<not> Done (WithTimeout ?w 1000) ?w" by code_simp
  have "fst (readLineIgnoreEof (WithTimeout ?w 1000) ?w)
      = (nil, Some (Transport ''input/output error''))" by code_simp
  then have r: "readLineIgnoreEof (WithTimeout ?w 1000) ?w
      = ((nil, Some (Transport ''input/output error'')), ?w1)" by (metis prod.collapse)
  have nd1: "\<not> Done (WithTimeout ?w 1000) ?w1" by code_simp
  from channel_closed_only_without_delivery
    [of ?w 1000 "WithTimeout ?w 1000" nil "Transport ''input/output error''" ?w1] nd r nd1
  have w: "fst (waitForResponse ?w 1000) = (nil, Some (New ''channel closed unexpectedly''))"
    by simp

  have v: "fst (waitForResponse (scripted [delivers CRLF, fails (Transport ''input/output error'')]) 1000)
      = (nil, None)" by code_simp
  from z1 z2 z3 w v show ?thesis by simp
qed

text \<open>
  The claim as the spec has it fails on a port whose first read fails: the worker
  exits with an error, and the caller gets "channel closed unexpectedly".
\<close>

theorem transport_error_surfaces_as_channel_closed:
  "snd (fst (readLineIgnoreEof
        (WithTimeout (scripted [fails (Transport ''input/output error'')]) 1000)
        (scripted [fails (Transport ''input/output error'')])))
     = Some (Transport ''input/output error'')
   \<and> fst (waitForResponse (scripted [fails (Transport ''input/output error'')]) 1000)
     = (nil, Some (New ''channel closed unexpectedly''))
   \<and> logged (snd (waitForResponse (scripted [fails (Transport ''input/output error'')]) 1000))
     = [ErrorReadingSerial (Transport ''input/output error'')]"
  by code_simp

subsection \<open>A port that stays silent\<close>

lemma store_Nil [simp]: "store m at [] = m"
  by (auto simp: store_def fun_eq_iff)

lemma b_buf_log [simp]: "b_buf (log_Printf m w) = b_buf w"
  by (simp add: log_Printf_def)

lemma silent_fill:
  assumes "silent w" and "b_err w = None"
  shows "b_err (fill w) = Some EOF \<and> b_r (fill w) = 0 \<and> b_w (fill w) = 0
    \<and> list_all (\<lambda>c. bytes c = [] \<and> cerr c = Some EOF) (rscript (fill w))
    \<and> b_buf (fill w) = b_buf w \<and> logged (fill w) = logged w \<and> written (fill w) = written w"
proof -
  let ?s = "slide w"
  have s: "b_r ?s = 0" "b_w ?s = 0" "b_buf ?s = b_buf w" "rscript ?s = rscript w"
    "logged ?s = logged w" "written ?s = written w"
    using assms by (auto simp: slide_def silent_def)
  have "fill w = fill_loop (Suc 99) ?s" by (simp add: fill_def)
  also have "\<dots> = (case port_Read (defaultBufSize - b_w ?s) ?s of
        ((d, e), w1) \<Rightarrow>
          let w2 = w1\<lparr>b_buf := store (b_buf w1) (b_w w1) d, b_w := b_w w1 + length d\<rparr>
          in if e \<noteq> None then w2\<lparr>b_err := e\<rparr>
             else if 0 < length d then w2
             else fill_loop 99 w2)"
    by (rule fill_loop.simps)
  finally have f: "fill w = (case port_Read (defaultBufSize - b_w ?s) ?s of
        ((d, e), w1) \<Rightarrow>
          let w2 = w1\<lparr>b_buf := store (b_buf w1) (b_w w1) d, b_w := b_w w1 + length d\<rparr>
          in if e \<noteq> None then w2\<lparr>b_err := e\<rparr>
             else if 0 < length d then w2
             else fill_loop 99 w2)" .
  show ?thesis
  proof (cases "rscript w")
    case Nil
    then show ?thesis using s f by (simp add: port_Read_def)
  next
    case (Cons c cs)
    with assms have "bytes c = []" "cerr c = Some EOF"
      "list_all (\<lambda>c. bytes c = [] \<and> cerr c = Some EOF) cs"
      by (simp_all add: silent_def)
    then show ?thesis using s f Cons by (simp add: port_Read_def)
  qed
qed

lemma silent_ReadLine:
  assumes "silent w"
  shows "fst (ReadLine w) = (nil, False, Some EOF) \<and> silent (snd (ReadLine w))
    \<and> b_buf (snd (ReadLine w)) = b_buf w \<and> logged (snd (ReadLine w)) = logged w
    \<and> written (snd (ReadLine w)) = written w"
proof (cases "b_err w = None")
  case False
  with assms have e: "b_err w = Some EOF" and le: "b_w w \<le> b_r w" by (auto simp: silent_def)
  have "ReadSlice w = ((\<lparr>s_off = b_r w, s_len = b_w w - b_r w\<rparr>, Some EOF),
      w\<lparr>b_r := b_w w, b_err := None\<rparr>)"
    using e le by (simp add: ReadSlice.simps [of w])
  then show ?thesis using assms le by (simp add: ReadLine_def silent_def nil_def)
next
  case True
  from assms have le: "b_w w \<le> b_r w" by (simp add: silent_def)
  then have nf: "\<not> defaultBufSize \<le> Buffered w" by (simp add: Buffered_def defaultBufSize_def)
  note f = silent_fill [OF assms True]
  have "ReadSlice w = ReadSlice (fill w)"
    using True le nf by (simp add: ReadSlice.simps [of w])
  also have "\<dots> = ((\<lparr>s_off = 0, s_len = 0\<rparr>, Some EOF), (fill w)\<lparr>b_r := 0, b_err := None\<rparr>)"
    using f by (simp add: ReadSlice.simps [of "fill w"])
  finally show ?thesis using f by (simp add: ReadLine_def silent_def nil_def)
qed

text \<open>On a silent port the line reader polls until the deadline and times out.\<close>

lemma silent_readLine:
  "silent w \<Longrightarrow>
   fst (readLineIgnoreEof ctx w) = (nil, Some (New ''operation timed out''))
   \<and> Done ctx (snd (readLineIgnoreEof ctx w))
   \<and> b_buf (snd (readLineIgnoreEof ctx w)) = b_buf w
   \<and> logged (snd (readLineIgnoreEof ctx w)) = logged w
   \<and> written (snd (readLineIgnoreEof ctx w)) = written w"
proof (induction ctx w rule: readLineIgnoreEof.induct)
  case (1 ctx reader)
  show ?case
  proof (cases "Done ctx reader")
    case True
    then show ?thesis by (simp add: readLine_Done)
  next
    case False
    note rl = silent_ReadLine [OF "1.prems"]
    let ?r1 = "snd (ReadLine reader)"
    from rl have eq: "ReadLine reader = ((nil, False, Some EOF), ?r1)"
      by (metis prod.collapse)
    have step: "readLineIgnoreEof ctx reader = readLineIgnoreEof ctx ?r1"
      using False eq by (rule readLine_retry)
    have "fst (readLineIgnoreEof ctx ?r1) = (nil, Some (New ''operation timed out''))
      \<and> Done ctx (snd (readLineIgnoreEof ctx ?r1))
      \<and> b_buf (snd (readLineIgnoreEof ctx ?r1)) = b_buf ?r1
      \<and> logged (snd (readLineIgnoreEof ctx ?r1)) = logged ?r1
      \<and> written (snd (readLineIgnoreEof ctx ?r1)) = written ?r1"
      using "1.IH" [of "(nil, False, Some EOF)" ?r1 nil "(False, Some EOF)" False "Some EOF"]
        False eq rl by simp
    with step rl show ?thesis by simp
  qed
qed





subsection \<open>The network-operator query\<close>

text \<open>
  A wait whose framing line arrives and whose port is silent from then on ends
  with the timeout error, and the buffer stays as the framing line's read left it.
\<close>

lemma wait_then_silent:
  assumes nd: "\<not> Done (WithTimeout r t) r"
    and r1: "fst (readLineIgnoreEof (WithTimeout r t) r) = (framing, None)"
    and si: "silent (snd (readLineIgnoreEof (WithTimeout r t) r))"
  shows "fst (waitForResponse r t) = (nil, Some (New ''operation timed out''))
    \<and> b_buf (snd (waitForResponse r t)) = b_buf (snd (readLineIgnoreEof (WithTimeout r t) r))"
proof -
  let ?ctx = "WithTimeout r t"
  let ?r1 = "snd (readLineIgnoreEof ?ctx r)"
  let ?r2 = "snd (readLineIgnoreEof ?ctx ?r1)"
  from r1 have e1: "readLineIgnoreEof ?ctx r = ((framing, None), ?r1)"
    by (metis prod.collapse)
  note s = silent_readLine [OF si, of ?ctx]
  then have e2: "readLineIgnoreEof ?ctx ?r1 = ((nil, Some (New ''operation timed out'')), ?r2)"
    by (metis prod.collapse)
  show ?thesis
    using wait_select [OF nd go_second [OF nd e1 e2]] s by simp
qed

text \<open>
  Claim C1 as the spec has it fails. On the spec's script the second wait takes
  \<open>OK\<close> for its framing line and then polls a silent port until its deadline:
  the call returns \<open>ok = false\<close> and the timeout error (and the payload slice has
  been written over by the read of \<open>OK\<close>).
\<close>

theorem cops_query_unframed_status_times_out:
  "map_sum id fst (ExecuteCommandRead (scripted spec_script) CmdNetworkOperator 1000)
     = Inr \<lparr>o_response = ''OK'' @ CRLF @ drop 4 cops_line, o_ok = False,
            o_err = Some (Errorf ''error getting ok response from port''
                           (New ''operation timed out''))\<rparr>"
proof -
  let ?cmd = "Sprintf ''+%s?'' CmdNetworkOperator"
  let ?p = "scripted spec_script"
  let ?p1 = "snd (WriteCommand ?p ?cmd)"
  let ?r0 = "NewReader ?p1"
  let ?r1 = "snd (waitForResponse ?r0 1000)"
  let ?resp = "\<lparr>s_off = 0, s_len = 20\<rparr>"
  let ?ctx = "WithTimeout ?r1 1000"
  let ?r2 = "snd (readLineIgnoreEof ?ctx ?r1)"
  have "fst (WriteCommand ?p ?cmd) = None" by code_simp
  then have a: "WriteCommand ?p ?cmd = (None, ?p1)" by (metis prod.collapse)
  have "fst (waitForResponse ?r0 1000) = (?resp, None)" by code_simp
  then have b: "waitForResponse ?r0 1000 = ((?resp, None), ?r1)" by (metis prod.collapse)
  have c: "index ?r1 ?resp 0 = Some (CHR ''+'')" by code_simp
  have nd: "\<not> Done ?ctx ?r1" by code_simp
  have f: "fst (readLineIgnoreEof ?ctx ?r1) = (\<lparr>s_off = 0, s_len = 2\<rparr>, None)" by code_simp
  have si: "silent ?r2" by code_simp
  note w = wait_then_silent [OF nd f si]
  then have d: "waitForResponse ?r1 1000
      = ((nil, Some (New ''operation timed out'')), snd (waitForResponse ?r1 1000))"
    by (metis prod.collapse)
  have by2: "bytes_of ?r2 ?resp = ''OK'' @ CRLF @ drop 4 cops_line" by code_simp
  have "bytes_of (snd (waitForResponse ?r1 1000)) ?resp = bytes_of ?r2 ?resp"
    using w by (simp add: bytes_of_def)
  with by2 have e: "bytes_of (snd (waitForResponse ?r1 1000)) ?resp
      = ''OK'' @ CRLF @ drop 4 cops_line" by simp
  show ?thesis
    unfolding ExecuteCommandRead_def
    using ExecuteCommand_status_fails [OF a b c d] e by simp
qed

text \<open>
  Claim C1, as the code has it. When every write succeeds and the device frames
  the status line as it frames the payload line, the bytes being
  \<open>\r\n+COPS: 0,0,"Carrier"\r\n\r\nOK\r\n\<close>: if they arrive in one read,
  \<open>ExecuteCommandRead(port, "COPS", 1s)\<close> returns the payload
  \<open>+COPS: 0,0,"Carrier"\<close>, \<open>ok = true\<close> and a nil error; if each of the four lines
  arrives in a read of its own, it returns \<open>ok = true\<close> and a nil error. (The
  timeout is 1000 ticks.)
\<close>

theorem cops_query_framed_status:
  "map_sum id fst (ExecuteCommandRead (scripted burst_script) CmdNetworkOperator 1000)
     = Inr \<lparr>o_response = cops_line, o_ok = True, o_err = None\<rparr>
   \<and> map_sum id (\<lambda>(out, w). (o_ok out, o_err out))
       (ExecuteCommandRead (scripted framed_script) CmdNetworkOperator 1000)
     = Inr (True, None)"
  by code_simp

text \<open>
  Claim C2 fails on the code. The payload that \<open>ExecuteCommand\<close> returns is a slice
  of the reader's buffer, and the reads of the second wait write into that buffer.
  With each line in a read of its own, the first wait returns the line
  \<open>+COPS: 0,0,"Carrier"\<close>, and the payload the call returns holds \<open>OK\r\n\<close> in its
  first four bytes. The same happens when the two framing lines are 900 ticks
  late each: the call succeeds after 1804 ticks with a timeout of 1000, so the
  second wait does get the full timeout, and \<open>ok\<close> is that of the status line.
\<close>

theorem payload_overwritten_by_second_wait:
  "bytes_of
     (snd (waitForResponse
        (NewReader (snd (WriteCommand (scripted framed_script) ''+COPS?''))) 1000))
     (fst (fst (waitForResponse
        (NewReader (snd (WriteCommand (scripted framed_script) ''+COPS?''))) 1000)))
     = cops_line
   \<and> map_sum id fst (ExecuteCommandRead (scripted framed_script) CmdNetworkOperator 1000)
     = Inr \<lparr>o_response = ''OK'' @ CRLF @ drop 4 cops_line, o_ok = True, o_err = None\<rparr>
   \<and> map_sum id (\<lambda>(out, w). (out, clock w))
       (ExecuteCommandRead (scripted slow_script) CmdNetworkOperator 1000)
     = Inr (\<lparr>o_response = ''OK'' @ CRLF @ drop 4 cops_line, o_ok = True, o_err = None\<rparr>, 1804)"
  by code_simp

subsection \<open>Classification\<close>

lemma in_white_space:
  "e \<in> set white_space \<longleftrightarrow>
     (\<exists>c. asciiSpace c \<and> e = [c]) \<or> e \<in> set white_space_utf8"
  by (auto simp: white_space_def asciiSpace_def)

lemma asciiSpace_below: "asciiSpace c \<Longrightarrow> of_char c < RuneSelf"
  by (auto simp: asciiSpace_def RuneSelf_def)

lemma space_first_utf8:
  "e \<in> set white_space_utf8 \<Longrightarrow> space_first (e @ s) = length e"
  by (auto simp: white_space_utf8_def space_first_def RuneSelf_def)

lemma space_last_utf8:
  "e \<in> set white_space_utf8 \<Longrightarrow> space_last (s @ e) = length e"
  by (auto simp: white_space_utf8_def space_last_def RuneSelf_def)


lemma space_first_white: "e \<in> set white_space \<Longrightarrow> space_first (e @ s) = length e \<and> e \<noteq> []"
proof -
  assume e: "e \<in> set white_space"
  then consider c where "asciiSpace c" "e = [c]" | "e \<in> set white_space_utf8"
    by (auto simp: in_white_space)
  then show ?thesis
  proof cases
    case 1
    then show ?thesis using asciiSpace_below [of c] by (simp add: space_first_def)
  next
    case 2
    then have "e \<noteq> []" by (auto simp: white_space_utf8_def)
    with 2 show ?thesis by (simp add: space_first_utf8)
  qed
qed

lemma space_last_white: "e \<in> set white_space \<Longrightarrow> space_last (s @ e) = length e \<and> e \<noteq> []"
proof -
  assume e: "e \<in> set white_space"
  then consider c where "asciiSpace c" "e = [c]" | "e \<in> set white_space_utf8"
    by (auto simp: in_white_space)
  then show ?thesis
  proof cases
    case 1
    then show ?thesis using asciiSpace_below [of c] by (simp add: space_last_def)
  next
    case 2
    then have "e \<noteq> []" by (auto simp: white_space_utf8_def)
    with 2 show ?thesis by (simp add: space_last_utf8)
  qed
qed

lemma find_in_set: "find P xs = Some e \<Longrightarrow> e \<in> set xs"
  by (induction xs) (auto split: if_splits)

lemma space_first_take:
  "space_first s \<noteq> 0 \<Longrightarrow> take (space_first s) s \<in> set white_space"
proof (cases s)
  case Nil
  assume "space_first s \<noteq> 0"
  with Nil show ?thesis by (simp add: space_first_def)
next
  case (Cons c cs)
  assume nz: "space_first s \<noteq> 0"
  show ?thesis
  proof (cases "of_char c < RuneSelf")
    case True
    with nz Cons have "asciiSpace c" "space_first s = 1"
      by (auto simp: space_first_def split: if_splits)
    with Cons show ?thesis by (auto simp: in_white_space)
  next
    case False
    with nz Cons obtain e where f: "find (\<lambda>e. take (length e) s = e) white_space_utf8 = Some e"
      and k: "space_first s = length e"
      by (auto simp: space_first_def split: option.splits)
    from find_holds [OF f] find_in_set [OF f] k show ?thesis by (simp add: in_white_space)
  qed
qed

lemma space_last_drop:
  "space_last s \<noteq> 0 \<Longrightarrow> drop (length s - space_last s) s \<in> set white_space"
proof (cases "rev s")
  case Nil
  assume "space_last s \<noteq> 0"
  with Nil show ?thesis by (simp add: space_last_def)
next
  case (Cons c cs)
  assume nz: "space_last s \<noteq> 0"
  from Cons have s: "s = rev cs @ [c]" by (metis rev.simps(2) rev_rev_ident)
  show ?thesis
  proof (cases "of_char c < RuneSelf")
    case True
    with nz Cons have "asciiSpace c" "space_last s = 1"
      by (auto simp: space_last_def split: if_splits)
    with s show ?thesis by (auto simp: in_white_space)
  next
    case False
    with nz Cons obtain e
      where f: "find (\<lambda>e. take (length e) (rev s) = rev e) white_space_utf8 = Some e"
      and k: "space_last s = length e"
      by (auto simp: space_last_def split: option.splits)
    from find_holds [OF f] have "take (length e) (rev s) = rev e" .
    then have "rev (take (length e) (rev s)) = e" by simp
    then have "drop (length s - length e) s = e" by (simp add: rev_take)
    with find_in_set [OF f] k show ?thesis by (simp add: in_white_space)
  qed
qed

text \<open>What the two trimming loops cut off is white space, and no more is left to cut.\<close>

lemma TrimLeft_splits:
  "\<exists>pre. set pre \<subseteq> set white_space \<and> s = concat pre @ TrimLeftFunc_IsSpace s
     \<and> space_first (TrimLeftFunc_IsSpace s) = 0"
proof (induction s rule: TrimLeftFunc_IsSpace.induct)
  case (1 s)
  show ?case
  proof (cases "space_first s = 0")
    case True
    then have "TrimLeftFunc_IsSpace s = s" by (simp add: TrimLeftFunc_IsSpace.simps [of s])
    with True have "set [] \<subseteq> set white_space \<and> s = concat [] @ TrimLeftFunc_IsSpace s
        \<and> space_first (TrimLeftFunc_IsSpace s) = 0" by simp
    then show ?thesis by blast
  next
    case False
    let ?k = "space_first s"
    from False have eq: "TrimLeftFunc_IsSpace s = TrimLeftFunc_IsSpace (drop ?k s)"
      by (simp add: TrimLeftFunc_IsSpace.simps [of s])
    from "1.IH" [OF False] obtain pre where pre: "set pre \<subseteq> set white_space"
      "drop ?k s = concat pre @ TrimLeftFunc_IsSpace (drop ?k s)"
      "space_first (TrimLeftFunc_IsSpace (drop ?k s)) = 0" by blast
    have "s = take ?k s @ drop ?k s" by simp
    with pre eq have "s = concat (take ?k s # pre) @ TrimLeftFunc_IsSpace s" by simp
    moreover have "set (take ?k s # pre) \<subseteq> set white_space"
      using pre space_first_take [OF False] by simp
    ultimately show ?thesis using pre eq by metis
  qed
qed

lemma TrimRight_splits:
  "\<exists>post. set post \<subseteq> set white_space \<and> s = TrimRightFunc_IsSpace s @ concat post
     \<and> space_last (TrimRightFunc_IsSpace s) = 0"
proof (induction s rule: TrimRightFunc_IsSpace.induct)
  case (1 s)
  show ?case
  proof (cases "space_last s = 0")
    case True
    then have "TrimRightFunc_IsSpace s = s" by (simp add: TrimRightFunc_IsSpace.simps [of s])
    with True have "set [] \<subseteq> set white_space \<and> s = TrimRightFunc_IsSpace s @ concat []
        \<and> space_last (TrimRightFunc_IsSpace s) = 0" by simp
    then show ?thesis by blast
  next
    case False
    let ?n = "length s - space_last s"
    from False have eq: "TrimRightFunc_IsSpace s = TrimRightFunc_IsSpace (take ?n s)"
      by (simp add: TrimRightFunc_IsSpace.simps [of s])
    from "1.IH" [OF False] obtain post where post: "set post \<subseteq> set white_space"
      "take ?n s = TrimRightFunc_IsSpace (take ?n s) @ concat post"
      "space_last (TrimRightFunc_IsSpace (take ?n s)) = 0" by blast
    have "s = take ?n s @ drop ?n s" by simp
    with post eq have "s = TrimRightFunc_IsSpace s @ concat (post @ [drop ?n s])"
      by (metis append.assoc append_Nil2 concat.simps(1) concat.simps(2) concat_append)
    moreover have "set (post @ [drop ?n s]) \<subseteq> set white_space"
      using post space_last_drop [OF False] by simp
    ultimately show ?thesis using post eq by metis
  qed
qed

lemma TrimLeft_white:
  "set pre \<subseteq> set white_space \<Longrightarrow>
   TrimLeftFunc_IsSpace (concat pre @ x) = TrimLeftFunc_IsSpace x"
proof (induction pre)
  case Nil
  then show ?case by simp
next
  case (Cons e pre)
  then have e: "e \<in> set white_space" by simp
  from space_first_white [OF e, of "concat pre @ x"]
  have k: "space_first (e @ concat pre @ x) = length e" "e \<noteq> []" by simp_all
  then have "TrimLeftFunc_IsSpace (e @ concat pre @ x) = TrimLeftFunc_IsSpace (concat pre @ x)"
    by (simp add: TrimLeftFunc_IsSpace.simps [of "e @ concat pre @ x"])
  with Cons show ?case by simp
qed

lemma TrimRight_white:
  "set post \<subseteq> set white_space \<Longrightarrow>
   TrimRightFunc_IsSpace (x @ concat post) = TrimRightFunc_IsSpace x"
proof (induction post rule: rev_induct)
  case Nil
  then show ?case by simp
next
  case (snoc e post)
  then have e: "e \<in> set white_space" by simp
  let ?s = "x @ concat post @ e"
  from space_last_white [OF e, of "x @ concat post"]
  have k: "space_last ?s = length e" "e \<noteq> []" by simp_all
  have "TrimRightFunc_IsSpace ?s = TrimRightFunc_IsSpace (take (length ?s - space_last ?s) ?s)"
    using k by (subst TrimRightFunc_IsSpace.simps) simp
  also have "take (length ?s - space_last ?s) ?s = x @ concat post"
    using k by simp
  finally have "TrimRightFunc_IsSpace ?s = TrimRightFunc_IsSpace (x @ concat post)" .
  with snoc show ?case by simp
qed


text \<open>The fast path of \<open>TrimSpace\<close> agrees with the two loops over runes.\<close>

lemma space_first_ascii:
  "of_char c < RuneSelf \<Longrightarrow> space_first (c # s) = (if asciiSpace c then 1 else 0)"
  by (simp add: space_first_def)

lemma space_last_ascii:
  "of_char c < RuneSelf \<Longrightarrow> space_last (s @ [c]) = (if asciiSpace c then 1 else 0)"
  by (simp add: space_last_def)

lemma TrimLeft_id: "space_first s = 0 \<Longrightarrow> TrimLeftFunc_IsSpace s = s"
  by (simp add: TrimLeftFunc_IsSpace.simps [of s])

lemma TrimRight_id: "space_last s = 0 \<Longrightarrow> TrimRightFunc_IsSpace s = s"
  by (simp add: TrimRightFunc_IsSpace.simps [of s])

lemma TrimRight_ascii_space:
  assumes "of_char c < RuneSelf" and "asciiSpace c"
  shows "TrimRightFunc_IsSpace (s @ [c]) = TrimRightFunc_IsSpace s"
proof -
  have "space_last (s @ [c]) = 1" using assms by (simp add: space_last_ascii)
  then show ?thesis by (subst TrimRightFunc_IsSpace.simps) simp
qed

lemma TrimLeft_ascii_space:
  assumes "of_char c < RuneSelf" and "asciiSpace c"
  shows "TrimLeftFunc_IsSpace (c # s) = TrimLeftFunc_IsSpace s"
proof -
  have "space_first (c # s) = 1" using assms by (simp add: space_first_ascii)
  then show ?thesis by (subst TrimLeftFunc_IsSpace.simps) simp
qed

lemma TrimSpace_stop_eq:
  assumes c: "of_char c < RuneSelf" "\<not> asciiSpace c"
  shows "TrimSpace_stop (r @ [c]) = TrimRightFunc_IsSpace (rev (r @ [c]))"
proof (induction r)
  case Nil
  have "space_last ([] @ [c]) = 0" using c by (simp only: space_last_ascii) simp
  then have "TrimRightFunc_IsSpace [c] = [c]" by (simp add: TrimRight_id)
  then show ?case using c by simp
next
  case (Cons d r)
  have first: "space_first (c # rev r @ [d]) = 0" using c by (simp add: space_first_ascii)
  show ?case
  proof (cases "RuneSelf \<le> of_char d")
    case True
    then show ?thesis
      using first by (simp add: TrimFunc_IsSpace_def TrimLeft_id)
  next
    case False
    then have d: "of_char d < RuneSelf" by simp
    show ?thesis
    proof (cases "asciiSpace d")
      case True
      have "TrimRightFunc_IsSpace ((c # rev r) @ [d]) = TrimRightFunc_IsSpace (c # rev r)"
        using d True by (rule TrimRight_ascii_space)
      then show ?thesis using d True Cons.IH by simp
    next
      case nsp: False
      have "space_last ((c # rev r) @ [d]) = 0" using d nsp by (simp only: space_last_ascii) simp
      then have "TrimRightFunc_IsSpace ((c # rev r) @ [d]) = (c # rev r) @ [d]"
        by (rule TrimRight_id)
      then show ?thesis using d nsp by simp
    qed
  qed
qed

lemma TrimSpace_eq: "TrimSpace s = TrimRightFunc_IsSpace (TrimLeftFunc_IsSpace s)"
  unfolding TrimSpace_def
proof (induction s)
  case Nil
  have "space_first [] = 0" "space_last [] = 0" by (simp_all add: space_first_def space_last_def)
  then show ?case by (simp add: TrimLeft_id TrimRight_id)
next
  case (Cons c s)
  show ?case
  proof (cases "RuneSelf \<le> of_char c")
    case True
    then show ?thesis by (simp add: TrimFunc_IsSpace_def)
  next
    case False
    then have c: "of_char c < RuneSelf" by simp
    show ?thesis
    proof (cases "asciiSpace c")
      case True
      then show ?thesis using c Cons.IH by (simp add: TrimLeft_ascii_space)
    next
      case nsp: False
      have "space_first (c # s) = 0" using c nsp by (simp add: space_first_ascii)
      then have l: "TrimLeftFunc_IsSpace (c # s) = c # s" by (rule TrimLeft_id)
      have "TrimSpace_stop (rev s @ [c]) = TrimRightFunc_IsSpace (rev (rev s @ [c]))"
        using c nsp by (rule TrimSpace_stop_eq)
      then show ?thesis using c nsp l by simp
    qed
  qed
qed

text \<open>A line trims to \<open>OK\<close> exactly when it is \<open>OK\<close> between two runs of white space.\<close>

lemma TrimSpace_OK_iff:
  "TrimSpace l = OkResponseOk \<longleftrightarrow>
     (\<exists>pre post. set pre \<subseteq> set white_space \<and> set post \<subseteq> set white_space
        \<and> l = concat pre @ ''OK'' @ concat post)"
proof
  assume t: "TrimSpace l = OkResponseOk"
  obtain pre where pre: "set pre \<subseteq> set white_space"
    "l = concat pre @ TrimLeftFunc_IsSpace l" using TrimLeft_splits [of l] by blast
  obtain post where post: "set post \<subseteq> set white_space"
    "TrimLeftFunc_IsSpace l = TrimRightFunc_IsSpace (TrimLeftFunc_IsSpace l) @ concat post"
    using TrimRight_splits [of "TrimLeftFunc_IsSpace l"] by blast
  from t have "TrimRightFunc_IsSpace (TrimLeftFunc_IsSpace l) = ''OK''"
    by (simp add: TrimSpace_eq OkResponseOk_def)
  with pre post have "l = concat pre @ ''OK'' @ concat post" by simp
  with pre post show "\<exists>pre post. set pre \<subseteq> set white_space \<and> set post \<subseteq> set white_space
        \<and> l = concat pre @ ''OK'' @ concat post" by blast
next
  assume "\<exists>pre post. set pre \<subseteq> set white_space \<and> set post \<subseteq> set white_space
        \<and> l = concat pre @ ''OK'' @ concat post"
  then obtain pre post where pp: "set pre \<subseteq> set white_space" "set post \<subseteq> set white_space"
    and l: "l = concat pre @ ''OK'' @ concat post" by blast
  have "space_first (''OK'' @ concat post) = 0"
    by (simp add: space_first_def RuneSelf_def asciiSpace_def)
  then have a: "TrimLeftFunc_IsSpace (''OK'' @ concat post) = ''OK'' @ concat post"
    by (rule TrimLeft_id)
  have "space_last ''OK'' = 0" by (simp add: space_last_def RuneSelf_def asciiSpace_def)
  then have b: "TrimRightFunc_IsSpace ''OK'' = ''OK''" by (rule TrimRight_id)
  have "TrimSpace l = TrimRightFunc_IsSpace (TrimLeftFunc_IsSpace (concat pre @ ''OK'' @ concat post))"
    using l by (simp add: TrimSpace_eq)
  also have "\<dots> = TrimRightFunc_IsSpace (''OK'' @ concat post)"
    using TrimLeft_white [OF pp(1), of "''OK'' @ concat post"] a by simp
  also have "\<dots> = ''OK''" using TrimRight_white [OF pp(2), of "''OK''"] b by simp
  finally show "TrimSpace l = OkResponseOk" by (simp add: OkResponseOk_def)
qed

text \<open>
  Claim C3. The line that \<open>ExecuteCommand\<close> classifies is the payload line, or the
  line of the second wait when the payload line begins with \<open>+\<close>; \<open>ok\<close> is whether
  that line, white space trimmed off both ends, is \<open>OK\<close>. A line trims to \<open>OK\<close>
  exactly when it is \<open>OK\<close> with nothing but white-space characters before and after
  it. So \<open>" OK "\<close> is a success, and \<open>ERROR\<close> and the empty line are not.
\<close>

theorem ok_iff_trimmed_line_is_OK:
  "(TrimSpace l = OkResponseOk \<longleftrightarrow>
      (\<exists>pre post. set pre \<subseteq> set white_space \<and> set post \<subseteq> set white_space
         \<and> l = concat pre @ ''OK'' @ concat post))
   \<and> (WriteCommand port cmd = (None, port1) \<longrightarrow>
      waitForResponse (NewReader port1) t = ((response, None), reader1) \<longrightarrow>
        (index reader1 response 0 \<noteq> Some (CHR ''+'') \<longrightarrow>
           ExecuteCommand port cmd t =
             Inr (\<lparr>o_response = bytes_of reader1 response,
                   o_ok = (TrimSpace (bytes_of reader1 response) = OkResponseOk),
                   o_err = None\<rparr>, reader1))
        \<and> (index reader1 response 0 = Some (CHR ''+'') \<longrightarrow>
           waitForResponse reader1 t = ((okResponse, None), reader2) \<longrightarrow>
           ExecuteCommand port cmd t =
             Inr (\<lparr>o_response = bytes_of reader2 response,
                   o_ok = (TrimSpace (bytes_of reader2 okResponse) = OkResponseOk),
                   o_err = None\<rparr>, reader2)))
   \<and> TrimSpace '' OK '' = OkResponseOk
   \<and> TrimSpace ''ERROR'' \<noteq> OkResponseOk
   \<and> TrimSpace [] \<noteq> OkResponseOk"
proof -
  have i1: "TrimSpace '' OK '' = OkResponseOk" by code_simp
  have i2: "TrimSpace ''ERROR'' \<noteq> OkResponseOk" by code_simp
  have i3: "TrimSpace [] \<noteq> OkResponseOk" by code_simp
  show ?thesis
    using TrimSpace_OK_iff [of l] i1 i2 i3
      ExecuteCommand_direct [of port cmd port1 t response reader1]
      ExecuteCommand_status [of port cmd port1 t response reader1 okResponse reader2]
    by blast
qed


text \<open>
  A tab before \<open>OK\<close> and a no-break space after it; a device that answers the bare
  \<open>AT\<close> with \<open>" OK "\<close>; and the network-operator query answered in one read, where the
  status line decides.
\<close>

theorem ok_iff_trimmed_line_is_OK_witness:
  "TrimSpace ([CHR 0x09] @ ''OK'' @ [CHR 0xC2, CHR 0xA0]) = OkResponseOk
   \<and> map_sum id fst
       (ExecuteCommand (scripted [delivers CRLF, delivers ('' OK '' @ CRLF)]) CmdStart 1000)
     = Inr \<lparr>o_response = '' OK '', o_ok = True, o_err = None\<rparr>
   \<and> map_sum id fst (ExecuteCommand (scripted burst_script) ''+COPS?'' 1000)
     = Inr \<lparr>o_response = cops_line, o_ok = True, o_err = None\<rparr>"
proof -
  have ws: "set [[CHR 0x09]] \<subseteq> set white_space" "set [[CHR 0xC2, CHR 0xA0]] \<subseteq> set white_space"
    by (simp_all add: white_space_def white_space_utf8_def)
  have "\<exists>pre post. set pre \<subseteq> set white_space \<and> set post \<subseteq> set white_space
      \<and> [CHR 0x09] @ ''OK'' @ [CHR 0xC2, CHR 0xA0] = concat pre @ ''OK'' @ concat post"
    using ws by (intro exI [of _ "[[CHR 0x09]]"] exI [of _ "[[CHR 0xC2, CHR 0xA0]]"]) simp
  then have one: "TrimSpace ([CHR 0x09] @ ''OK'' @ [CHR 0xC2, CHR 0xA0]) = OkResponseOk"
    using ok_iff_trimmed_line_is_OK [of "[CHR 0x09] @ ''OK'' @ [CHR 0xC2, CHR 0xA0]"] by blast

  let ?p = "scripted [delivers CRLF, delivers ('' OK '' @ CRLF)]"
  let ?p1 = "snd (WriteCommand ?p CmdStart)"
  let ?r1 = "snd (waitForResponse (NewReader ?p1) 1000)"
  let ?resp = "\<lparr>s_off = 0, s_len = 4\<rparr>"
  have "fst (WriteCommand ?p CmdStart) = None" by code_simp
  then have a: "WriteCommand ?p CmdStart = (None, ?p1)" by (metis prod.collapse)
  have "fst (waitForResponse (NewReader ?p1) 1000) = (?resp, None)" by code_simp
  then have b: "waitForResponse (NewReader ?p1) 1000 = ((?resp, None), ?r1)"
    by (metis prod.collapse)
  have c: "index ?r1 ?resp 0 \<noteq> Some (CHR ''+'')" by code_simp
  have d: "bytes_of ?r1 ?resp = '' OK ''" by code_simp
  have "ExecuteCommand ?p CmdStart 1000
      = Inr (\<lparr>o_response = bytes_of ?r1 ?resp,
              o_ok = (TrimSpace (bytes_of ?r1 ?resp) = OkResponseOk), o_err = None\<rparr>, ?r1)"
    using ok_iff_trimmed_line_is_OK [of _ ?p CmdStart ?p1 1000 ?resp ?r1] a b c by blast
  moreover have "TrimSpace '' OK '' = OkResponseOk"
    using ok_iff_trimmed_line_is_OK by blast
  ultimately have two: "map_sum id fst (ExecuteCommand ?p CmdStart 1000)
      = Inr \<lparr>o_response = '' OK '', o_ok = True, o_err = None\<rparr>"
    using d by simp

  let ?q = "scripted burst_script"
  let ?q1 = "snd (WriteCommand ?q ''+COPS?'')"
  let ?s1 = "snd (waitForResponse (NewReader ?q1) 1000)"
  let ?s2 = "snd (waitForResponse ?s1 1000)"
  let ?pay = "\<lparr>s_off = 2, s_len = 20\<rparr>"
  let ?st = "\<lparr>s_off = 26, s_len = 2\<rparr>"
  have "fst (WriteCommand ?q ''+COPS?'') = None" by code_simp
  then have a': "WriteCommand ?q ''+COPS?'' = (None, ?q1)" by (metis prod.collapse)
  have "fst (waitForResponse (NewReader ?q1) 1000) = (?pay, None)" by code_simp
  then have b': "waitForResponse (NewReader ?q1) 1000 = ((?pay, None), ?s1)"
    by (metis prod.collapse)
  have c': "index ?s1 ?pay 0 = Some (CHR ''+'')" by code_simp
  have "fst (waitForResponse ?s1 1000) = (?st, None)" by code_simp
  then have d': "waitForResponse ?s1 1000 = ((?st, None), ?s2)" by (metis prod.collapse)
  have e': "bytes_of ?s2 ?pay = cops_line" "bytes_of ?s2 ?st = OkResponseOk" by code_simp+
  have "ExecuteCommand ?q ''+COPS?'' 1000
      = Inr (\<lparr>o_response = bytes_of ?s2 ?pay,
              o_ok = (TrimSpace (bytes_of ?s2 ?st) = OkResponseOk), o_err = None\<rparr>, ?s2)"
    using ok_iff_trimmed_line_is_OK [of _ ?q "''+COPS?''" ?q1 1000 ?pay ?s1 ?st ?s2] a' b' c' d'
    by blast
  moreover have "TrimSpace OkResponseOk = OkResponseOk" by code_simp
  ultimately have three: "map_sum id fst (ExecuteCommand ?q ''+COPS?'' 1000)
      = Inr \<lparr>o_response = cops_line, o_ok = True, o_err = None\<rparr>"
    using e' by simp
  from one two three show ?thesis by simp
qed

end
